theory Spec2Isabelle
  imports Complex_Main "HOL-Library.Sublist"
begin

section \<open>The census feature pipeline of \<open>trainer/util.py\<close>\<close>

text \<open>
  The notebook \<open>ai_platform_qwik_start.ipynb\<close> writes the module \<open>trainer/util.py\<close>.
  This theory embeds its functions \<open>_download_and_clean_file\<close>, \<open>download\<close>,
  \<open>preprocess\<close>, \<open>standardize\<close> and \<open>load_data\<close>. Isabelle identifiers cannot start
  with an underscore, so the leading underscore of a Python name is dropped.
\<close>

subsection \<open>Module constants\<close>

definition TRAINING_FILE :: string where
  "TRAINING_FILE = ''adult.data.csv''"

definition EVAL_FILE :: string where
  "EVAL_FILE = ''adult.test.csv''"

definition DATA_URL :: string where
  "DATA_URL = ''https://storage.googleapis.com/cloud-samples-data/ai-platform/census/data''"

definition TRAINING_URL :: string where
  "TRAINING_URL = DATA_URL @ ''/'' @ TRAINING_FILE"

definition EVAL_URL :: string where
  "EVAL_URL = DATA_URL @ ''/'' @ EVAL_FILE"

subsection \<open>String operations of Python used by the cleaning pass\<close>

text \<open>
  A \<open>char\<close> stands for a code point below 256. \<open>is_space\<close> lists the code points in that
  range that \<open>str.strip()\<close> removes: tab, line feed, vertical tab, form feed, carriage
  return, the four separators 0x1C to 0x1F, space, NEL and the no-break space.
\<close>

definition is_space :: "char \<Rightarrow> bool" where
  "is_space c \<longleftrightarrow>
     c \<in> set [CHR 0x09, CHR 0x0A, CHR 0x0B, CHR 0x0C, CHR 0x0D, CHR 0x1C, CHR 0x1D,
              CHR 0x1E, CHR 0x1F, CHR 0x20, CHR 0x85, CHR 0xA0]"

definition str_lstrip :: "string \<Rightarrow> string" where
  "str_lstrip s = dropWhile is_space s"

definition str_rstrip :: "string \<Rightarrow> string" where
  "str_rstrip s = rev (dropWhile is_space (rev s))"

definition str_strip :: "string \<Rightarrow> string" where
  "str_strip s = str_rstrip (str_lstrip s)"

text \<open>
  \<open>s.replace(old, new)\<close>: every occurrence of \<open>old\<close>, found from the left and without
  overlap, is replaced. With an empty \<open>old\<close> Python puts \<open>new\<close> before every character
  and at the end.
\<close>

function str_replace :: "string \<Rightarrow> string \<Rightarrow> string \<Rightarrow> string" where
  "str_replace old new [] = (if old = [] then new else [])"
| "str_replace old new (c # cs) =
     (if old = [] then new @ c # str_replace old new cs
      else if prefix old (c # cs) then new @ str_replace old new (drop (length old) (c # cs))
      else c # str_replace old new cs)"
  by pat_completeness auto
termination
  by (relation "measure (\<lambda>(old, new, s). length s)") auto

text \<open>\<open>s.split(sep)\<close> for a one-character separator: the fields of a CSV row.\<close>

fun str_split :: "char \<Rightarrow> string \<Rightarrow> string list" where
  "str_split sep [] = [[]]"
| "str_split sep (c # cs) =
     (if c = sep then [] # str_split sep cs
      else (case str_split sep cs of
              [] \<Rightarrow> [[c]]
            | f # fs \<Rightarrow> (c # f) # fs))"

text \<open>
  Iterating over a \<open>tf.io.gfile.GFile\<close> opened for reading yields its lines: the reader
  deletes every carriage return of the file, and each line keeps its terminating line
  feed (the last one has none when the file does not end in a line feed).
\<close>

fun split_lines :: "string \<Rightarrow> string list" where
  "split_lines [] = []"
| "split_lines (c # cs) =
     (if c = CHR ''\<newline>'' then [c] # split_lines cs
      else (case split_lines cs of
              [] \<Rightarrow> [[c]]
            | l # ls \<Rightarrow> (c # l) # ls))"

definition readlines :: "string \<Rightarrow> string list" where
  "readlines s = split_lines (filter (\<lambda>c. c \<noteq> CHR 0x0D) s)"

text \<open>\<open>os.path.join(a, b)\<close> on a POSIX system.\<close>

definition path_join :: "string \<Rightarrow> string \<Rightarrow> string" where
  "path_join a b =
     (if b \<noteq> [] \<and> hd b = CHR ''/'' then b
      else if a = [] \<or> last a = CHR ''/'' then a @ b
      else a @ ''/'' @ b)"

subsection \<open>The cleaning pass\<close>

text \<open>
  The body of the loop in \<open>_download_and_clean_file\<close>: \<open>None\<close> is the \<open>continue\<close>
  branch (nothing is written), \<open>Some out\<close> is the string handed to
  \<open>file_object.write\<close>.
\<close>

definition clean_line :: "string \<Rightarrow> string option" where
  "clean_line line0 =
     (let line1 = str_strip line0;
          line2 = str_replace '', '' '','' line1
      in if line2 = [] \<or> CHR '','' \<notin> set line2 then None
         else let line3 = (if last line2 = CHR ''.'' then butlast line2 else line2)
              in Some (line3 @ ''\<newline>''))"

fun clean_lines :: "string list \<Rightarrow> string" where
  "clean_lines [] = []"
| "clean_lines (l # ls) =
     (case clean_line l of
        None \<Rightarrow> clean_lines ls
      | Some out \<Rightarrow> out @ clean_lines ls)"

subsection \<open>Files and the network\<close>

text \<open>
  The state the download functions act on: the files and directories of the local file
  system, the files that \<open>urlretrieve\<close> has put in the system's temporary area, and
  the log of the URLs requested so far. The remote server is a function from a URL to
  the body it serves, \<open>None\<close> when the resource cannot be retrieved. Permissions are
  not part of the state: a write to the local file system succeeds.

  A \<open>GFile\<close> opened for writing creates its file at the first \<open>write\<close>. Every string
  that the cleaning pass writes is non-empty, so when no line is retained nothing is
  written and no destination file appears.
\<close>

record world =
  files :: "string \<rightharpoonup> string"
  dirs :: "string set"
  temp_files :: "string list"
  requests :: "string list"

datatype error = URLError string | KeyError "string list" | ValueError

definition gfile_exists :: "world \<Rightarrow> string \<Rightarrow> bool" where
  "gfile_exists w p \<longleftrightarrow> files w p \<noteq> None \<or> p \<in> dirs w"

definition gfile_makedirs :: "string \<Rightarrow> world \<Rightarrow> world" where
  "gfile_makedirs d w = w\<lparr>dirs := insert d (dirs w)\<rparr>"

definition download_and_clean_file ::
  "(string \<Rightarrow> string option) \<Rightarrow> string \<Rightarrow> string \<Rightarrow> world \<Rightarrow> error + world" where
  "download_and_clean_file net filename url w =
     (case net url of
        None \<Rightarrow> Inl (URLError url)
      | Some body \<Rightarrow>
          let w1 = w\<lparr>requests := requests w @ [url], temp_files := body # temp_files w\<rparr>;
              written = clean_lines (readlines body);
              w2 = (if written = [] then w1
                    else w1\<lparr>files := (files w1)(filename \<mapsto> written)\<rparr>);
              w3 = w2\<lparr>temp_files := tl (temp_files w2)\<rparr>
          in Inr w3)"

definition download ::
  "(string \<Rightarrow> string option) \<Rightarrow> string \<Rightarrow> world \<Rightarrow> error + ((string \<times> string) \<times> world)" where
  "download net data_dir w =
     (let w0 = gfile_makedirs data_dir w;
          training_file_path = path_join data_dir TRAINING_FILE;
          r1 = (if \<not> gfile_exists w0 training_file_path
                then download_and_clean_file net training_file_path TRAINING_URL w0
                else Inr w0)
      in case r1 of
           Inl e \<Rightarrow> Inl e
         | Inr w1 \<Rightarrow>
             let eval_file_path = path_join data_dir EVAL_FILE;
                 r2 = (if \<not> gfile_exists w1 eval_file_path
                       then download_and_clean_file net eval_file_path EVAL_URL w1
                       else Inr w1)
             in case r2 of
                  Inl e \<Rightarrow> Inl e
                | Inr w2 \<Rightarrow> Inr ((training_file_path, eval_file_path), w2))"

subsection \<open>Schema constants\<close>

definition CSV_COLUMNS :: "string list" where
  "CSV_COLUMNS =
     [''age'', ''workclass'', ''fnlwgt'', ''education'', ''education_num'',
      ''marital_status'', ''occupation'', ''relationship'', ''race'', ''gender'',
      ''capital_gain'', ''capital_loss'', ''hours_per_week'', ''native_country'',
      ''income_bracket'']"

definition LABEL_COLUMN :: string where
  "LABEL_COLUMN = ''income_bracket''"

definition UNUSED_COLUMNS :: "string list" where
  "UNUSED_COLUMNS = [''fnlwgt'', ''education'', ''gender'']"

text \<open>
  \<open>_CATEGORICAL_TYPES\<close>: the dictionary from a column label to the categories of its
  \<open>CategoricalDtype\<close>, in the declared order.
\<close>

definition CATEGORICAL_TYPES_items :: "(string \<times> string list) list" where
  "CATEGORICAL_TYPES_items =
     [(''workclass'',
        [''Federal-gov'', ''Local-gov'', ''Never-worked'', ''Private'', ''Self-emp-inc'',
         ''Self-emp-not-inc'', ''State-gov'', ''Without-pay'']),
      (''marital_status'',
        [''Divorced'', ''Married-AF-spouse'', ''Married-civ-spouse'',
         ''Married-spouse-absent'', ''Never-married'', ''Separated'', ''Widowed'']),
      (''occupation'',
        [''Adm-clerical'', ''Armed-Forces'', ''Craft-repair'', ''Exec-managerial'',
         ''Farming-fishing'', ''Handlers-cleaners'', ''Machine-op-inspct'',
         ''Other-service'', ''Priv-house-serv'', ''Prof-specialty'', ''Protective-serv'',
         ''Sales'', ''Tech-support'', ''Transport-moving'']),
      (''relationship'',
        [''Husband'', ''Not-in-family'', ''Other-relative'', ''Own-child'', ''Unmarried'',
         ''Wife'']),
      (''race'',
        [''Amer-Indian-Eskimo'', ''Asian-Pac-Islander'', ''Black'', ''Other'', ''White'']),
      (''native_country'',
        [''Cambodia'', ''Canada'', ''China'', ''Columbia'', ''Cuba'', ''Dominican-Republic'',
         ''Ecuador'', ''El-Salvador'', ''England'', ''France'', ''Germany'', ''Greece'',
         ''Guatemala'', ''Haiti'', ''Holand-Netherlands'', ''Honduras'', ''Hong'',
         ''Hungary'',
         ''India'', ''Iran'', ''Ireland'', ''Italy'', ''Jamaica'', ''Japan'', ''Laos'',
         ''Mexico'',
         ''Nicaragua'', ''Outlying-US(Guam-USVI-etc)'', ''Peru'', ''Philippines'',
         ''Poland'',
         ''Portugal'', ''Puerto-Rico'', ''Scotland'', ''South'', ''Taiwan'', ''Thailand'',
         ''Trinadad&Tobago'', ''United-States'', ''Vietnam'', ''Yugoslavia'']),
      (''income_bracket'',
        [''<=50K'', ''>50K''])]"

definition CATEGORICAL_TYPES :: "string \<rightharpoonup> string list" where
  "CATEGORICAL_TYPES = map_of CATEGORICAL_TYPES_items"

subsection \<open>Floating-point values\<close>

text \<open>
  A floating-point value is a finite number, an infinity or NaN. The special values
  follow IEEE 754: a quotient with divisor zero is NaN or an infinity, never an error.
  The arithmetic on finite values is idealised: it is exact, so rounding to 24 or 53
  bits, overflow and the sign of zero are absent from the model, and the conversion of
  an integer to a float is exact as well. What is proved below about numbers is
  therefore either symbolic (which operation is applied to which entry) or the value at
  an input on which single precision is exact too (small integers and dyadic
  fractions). How far the mean and the standard deviation of a standardized column are
  from 0 and 1 depends on the rounding and is outside this model.
\<close>

datatype pyfloat = Fin real | PInf | NInf | NaN

fun fneg :: "pyfloat \<Rightarrow> pyfloat" where
  "fneg (Fin a) = Fin (- a)"
| "fneg PInf = NInf"
| "fneg NInf = PInf"
| "fneg NaN = NaN"

fun fadd :: "pyfloat \<Rightarrow> pyfloat \<Rightarrow> pyfloat" where
  "fadd (Fin a) (Fin b) = Fin (a + b)"
| "fadd NaN y = NaN"
| "fadd x NaN = NaN"
| "fadd PInf NInf = NaN"
| "fadd NInf PInf = NaN"
| "fadd PInf y = PInf"
| "fadd x PInf = PInf"
| "fadd NInf y = NInf"
| "fadd x NInf = NInf"

definition fsub :: "pyfloat \<Rightarrow> pyfloat \<Rightarrow> pyfloat" where
  "fsub x y = fadd x (fneg y)"

fun fmul :: "pyfloat \<Rightarrow> pyfloat \<Rightarrow> pyfloat" where
  "fmul (Fin a) (Fin b) = Fin (a * b)"
| "fmul NaN y = NaN"
| "fmul x NaN = NaN"
| "fmul PInf (Fin b) = (if b = 0 then NaN else if 0 < b then PInf else NInf)"
| "fmul NInf (Fin b) = (if b = 0 then NaN else if 0 < b then NInf else PInf)"
| "fmul (Fin a) PInf = (if a = 0 then NaN else if 0 < a then PInf else NInf)"
| "fmul (Fin a) NInf = (if a = 0 then NaN else if 0 < a then NInf else PInf)"
| "fmul PInf PInf = PInf"
| "fmul NInf NInf = PInf"
| "fmul PInf NInf = NInf"
| "fmul NInf PInf = NInf"

fun fdiv :: "pyfloat \<Rightarrow> pyfloat \<Rightarrow> pyfloat" where
  "fdiv (Fin a) (Fin b) =
     (if b = 0 then (if a = 0 then NaN else if 0 < a then PInf else NInf)
      else Fin (a / b))"
| "fdiv NaN y = NaN"
| "fdiv x NaN = NaN"
| "fdiv (Fin a) y = Fin 0"
| "fdiv PInf (Fin b) = (if 0 \<le> b then PInf else NInf)"
| "fdiv NInf (Fin b) = (if 0 \<le> b then NInf else PInf)"
| "fdiv x y = NaN"

fun fsqrt :: "pyfloat \<Rightarrow> pyfloat" where
  "fsqrt (Fin a) = (if a < 0 then NaN else Fin (sqrt a))"
| "fsqrt PInf = PInf"
| "fsqrt x = NaN"

definition fsum :: "pyfloat list \<Rightarrow> pyfloat" where
  "fsum xs = foldr fadd xs (Fin 0)"

definition notna :: "pyfloat \<Rightarrow> bool" where
  "notna v \<longleftrightarrow> v \<noteq> NaN"

text \<open>
  \<open>Series.mean()\<close> and \<open>Series.std()\<close> of pandas, with their defaults \<open>skipna=True\<close>
  and \<open>ddof=1\<close>: NaN entries are left out, the mean is the sum over the count, and the
  standard deviation is the square root of the sum of the squared deviations from the
  mean over the count less one; with at most one value left it is NaN.
\<close>

definition series_mean :: "pyfloat list \<Rightarrow> pyfloat" where
  "series_mean xs =
     (let values = filter notna xs
      in fdiv (fsum values) (Fin (real (length values))))"

definition series_std :: "pyfloat list \<Rightarrow> pyfloat" where
  "series_std xs =
     (let values = filter notna xs;
          count = length values
      in if count \<le> 1 then NaN
         else let avg = fdiv (fsum values) (Fin (real count));
                  sqr = map (\<lambda>v. fmul (fsub avg v) (fsub avg v)) values
              in fsqrt (fdiv (fsum sqr) (Fin (real (count - 1)))))"

subsection \<open>Data frames\<close>

text \<open>
  A column is tagged with its dtype. An element of an \<open>object\<close> column is a Python
  object: a string, a float (NaN is the missing value) or an integer. \<open>read_csv\<close> with
  \<open>names=_CSV_COLUMNS, na_values='?'\<close> yields \<open>int64\<close> for a column of integers,
  \<open>float64\<close> for a numeric column with decimals or missing values, and \<open>object\<close> for a
  column with text, where a missing cell (the token \<open>?\<close>) is NaN. Integers are unbounded
  and their conversion to a float is exact.
\<close>

datatype pyobj = Str string | ObjFloat pyfloat | ObjInt int

datatype column =
    Int8 "int list"
  | Int64 "int list"
  | Float32 "pyfloat list"
  | Float64 "pyfloat list"
  | Object "pyobj list"

text \<open>
  A data frame: the row index and the labelled columns, in order. The labels of a frame
  read with \<open>names=_CSV_COLUMNS\<close> are distinct, and every column has one entry per row.
\<close>

record 'i dataframe =
  index :: "'i list"
  cols :: "(string \<times> column) list"

fun dtype_name :: "column \<Rightarrow> string" where
  "dtype_name (Int8 xs) = ''int8''"
| "dtype_name (Int64 xs) = ''int64''"
| "dtype_name (Float32 xs) = ''float32''"
| "dtype_name (Float64 xs) = ''float64''"
| "dtype_name (Object xs) = ''object''"

fun col_length :: "column \<Rightarrow> nat" where
  "col_length (Int8 xs) = length xs"
| "col_length (Int64 xs) = length xs"
| "col_length (Float32 xs) = length xs"
| "col_length (Float64 xs) = length xs"
| "col_length (Object xs) = length xs"

definition columns_of :: "'i dataframe \<Rightarrow> string list" where
  "columns_of df = map fst (cols df)"

definition wf_frame :: "'i dataframe \<Rightarrow> bool" where
  "wf_frame df \<longleftrightarrow>
     distinct (columns_of df) \<and> list_all (\<lambda>(n, c). col_length c = length (index df)) (cols df)"

text \<open>\<open>DataFrame.drop(columns=labels)\<close>: a label that is not in the frame is a KeyError.\<close>

definition df_drop :: "string list \<Rightarrow> 'i dataframe \<Rightarrow> error + 'i dataframe" where
  "df_drop labels df =
     (let missing = filter (\<lambda>n. n \<notin> set (columns_of df)) labels
      in if missing \<noteq> [] then Inl (KeyError missing)
         else Inr (df\<lparr>cols := filter (\<lambda>(n, c). n \<notin> set labels) (cols df)\<rparr>))"

text \<open>\<open>astype('float32')\<close> on the \<open>int64\<close> columns selected by \<open>select_dtypes\<close>.\<close>

fun int64_to_float32 :: "column \<Rightarrow> column" where
  "int64_to_float32 (Int64 xs) = Float32 (map (\<lambda>i. Fin (of_int i)) xs)"
| "int64_to_float32 c = c"

text \<open>
  \<open>x.astype(CategoricalDtype(categories))\<close>: a value that is not one of the categories
  becomes missing. \<open>x.cat.codes\<close>: the position of the value in the categories, -1 for a
  missing value; with fewer than 128 categories the codes are \<open>int8\<close>.
\<close>

fun index_of :: "'a list \<Rightarrow> 'a \<Rightarrow> nat" where
  "index_of [] x = 0"
| "index_of (y # ys) x = (if x = y then 0 else Suc (index_of ys x))"

fun astype_category :: "string list \<Rightarrow> pyobj \<Rightarrow> string option" where
  "astype_category categories (Str s) = (if s \<in> set categories then Some s else None)"
| "astype_category categories v = None"

fun cat_code :: "string list \<Rightarrow> string option \<Rightarrow> int" where
  "cat_code categories None = - 1"
| "cat_code categories (Some s) = int (index_of categories s)"

text \<open>
  The two \<open>apply\<close> calls of \<open>preprocess\<close> over the \<open>object\<close> columns, in column order:
  the lookup \<open>_CATEGORICAL_TYPES[x.name]\<close> of the first one raises KeyError for a label
  without declared categories. On a frame without rows \<open>DataFrame.apply\<close> does not
  call the function on the columns (it tries it on an empty unnamed series and discards
  the exception), so a column without entries stays as it is and nothing is raised.
\<close>

fun encode_categorical :: "(string \<times> column) list \<Rightarrow> error + (string \<times> column) list" where
  "encode_categorical [] = Inr []"
| "encode_categorical ((n, Object []) # rest) =
     (case encode_categorical rest of
        Inl e \<Rightarrow> Inl e
      | Inr rest' \<Rightarrow> Inr ((n, Object []) # rest'))"
| "encode_categorical ((n, Object (v # vs)) # rest) =
     (case CATEGORICAL_TYPES n of
        None \<Rightarrow> Inl (KeyError [n])
      | Some categories \<Rightarrow>
          (case encode_categorical rest of
             Inl e \<Rightarrow> Inl e
           | Inr rest' \<Rightarrow>
               Inr ((n, Int8 (map (cat_code categories)
                               (map (astype_category categories) (v # vs))))
                    # rest')))"
| "encode_categorical ((n, c) # rest) =
     (case encode_categorical rest of
        Inl e \<Rightarrow> Inl e
      | Inr rest' \<Rightarrow> Inr ((n, c) # rest'))"

definition preprocess :: "'i dataframe \<Rightarrow> error + 'i dataframe" where
  "preprocess dataframe =
     (case df_drop UNUSED_COLUMNS dataframe of
        Inl e \<Rightarrow> Inl e
      | Inr df1 \<Rightarrow>
          let df2 = df1\<lparr>cols := map (\<lambda>(n, c). (n, int64_to_float32 c)) (cols df1)\<rparr>
          in case encode_categorical (cols df2) of
               Inl e \<Rightarrow> Inl e
             | Inr cs \<Rightarrow> Inr (df2\<lparr>cols := cs\<rparr>))"

text \<open>
  \<open>standardize\<close>: the list \<open>dtypes\<close> is taken once, then the loop updates the frame
  column by column. \<open>dataframe[column] -= m\<close> and \<open>dataframe[column] /= s\<close> act on the
  entries of the column with that label.
\<close>

definition df_dtypes :: "'i dataframe \<Rightarrow> (string \<times> string) list" where
  "df_dtypes df = map (\<lambda>(n, c). (n, dtype_name c)) (cols df)"

fun float32_map :: "(pyfloat list \<Rightarrow> pyfloat list) \<Rightarrow> column \<Rightarrow> column" where
  "float32_map f (Float32 xs) = Float32 (f xs)"
| "float32_map f c = c"

definition update_column :: "string \<Rightarrow> (column \<Rightarrow> column) \<Rightarrow> 'i dataframe \<Rightarrow> 'i dataframe" where
  "update_column label f df =
     df\<lparr>cols := map (\<lambda>(n, c). if n = label then (n, f c) else (n, c)) (cols df)\<rparr>"

definition sub_mean :: "pyfloat list \<Rightarrow> pyfloat list" where
  "sub_mean xs = map (\<lambda>v. fsub v (series_mean xs)) xs"

definition div_std :: "pyfloat list \<Rightarrow> pyfloat list" where
  "div_std xs = map (\<lambda>v. fdiv v (series_std xs)) xs"

definition standardize_step :: "string \<times> string \<Rightarrow> 'i dataframe \<Rightarrow> 'i dataframe" where
  "standardize_step cd df =
     (case cd of (column, dtype) \<Rightarrow>
        if dtype = ''float32''
        then update_column column (float32_map div_std)
               (update_column column (float32_map sub_mean) df)
        else df)"

definition standardize :: "'i dataframe \<Rightarrow> 'i dataframe" where
  "standardize dataframe = fold standardize_step (df_dtypes dataframe) dataframe"

text \<open>\<open>DataFrame.pop(label)\<close>: the column and the frame without it; KeyError when absent.\<close>

definition df_pop :: "string \<Rightarrow> 'i dataframe \<Rightarrow> error + (column \<times> 'i dataframe)" where
  "df_pop label df =
     (case map_of (cols df) label of
        None \<Rightarrow> Inl (KeyError [label])
      | Some c \<Rightarrow> Inr (c, df\<lparr>cols := filter (\<lambda>(n, c). n \<noteq> label) (cols df)\<rparr>))"

text \<open>
  \<open>pd.concat([a, b], keys=[ka, kb])\<close>: the rows of \<open>a\<close> followed by the rows of \<open>b\<close>,
  each index entry paired with the key of its frame. A column in both frames gets the
  common dtype of numpy's promotion; a column in one frame only is filled with NaN for
  the rows of the other, in a dtype that can hold NaN. The columns are those of \<open>a\<close>,
  then those only in \<open>b\<close>.
\<close>

definition of_ints :: "int list \<Rightarrow> pyfloat list" where
  "of_ints xs = map (\<lambda>i. Fin (of_int i)) xs"

fun to_objects :: "column \<Rightarrow> pyobj list" where
  "to_objects (Int8 xs) = map ObjInt xs"
| "to_objects (Int64 xs) = map ObjInt xs"
| "to_objects (Float32 xs) = map ObjFloat xs"
| "to_objects (Float64 xs) = map ObjFloat xs"
| "to_objects (Object xs) = xs"

fun concat_column :: "column \<Rightarrow> column \<Rightarrow> column" where
  "concat_column (Int8 a) (Int8 b) = Int8 (a @ b)"
| "concat_column (Int8 a) (Int64 b) = Int64 (a @ b)"
| "concat_column (Int64 a) (Int8 b) = Int64 (a @ b)"
| "concat_column (Int64 a) (Int64 b) = Int64 (a @ b)"
| "concat_column (Float32 a) (Float32 b) = Float32 (a @ b)"
| "concat_column (Float32 a) (Int8 b) = Float32 (a @ of_ints b)"
| "concat_column (Int8 a) (Float32 b) = Float32 (of_ints a @ b)"
| "concat_column (Float32 a) (Int64 b) = Float64 (a @ of_ints b)"
| "concat_column (Int64 a) (Float32 b) = Float64 (of_ints a @ b)"
| "concat_column (Float32 a) (Float64 b) = Float64 (a @ b)"
| "concat_column (Float64 a) (Float32 b) = Float64 (a @ b)"
| "concat_column (Float64 a) (Float64 b) = Float64 (a @ b)"
| "concat_column (Float64 a) (Int8 b) = Float64 (a @ of_ints b)"
| "concat_column (Float64 a) (Int64 b) = Float64 (a @ of_ints b)"
| "concat_column (Int8 a) (Float64 b) = Float64 (of_ints a @ b)"
| "concat_column (Int64 a) (Float64 b) = Float64 (of_ints a @ b)"
| "concat_column (Object a) c = Object (a @ to_objects c)"
| "concat_column c (Object b) = Object (to_objects c @ b)"

fun na_column :: "column \<Rightarrow> nat \<Rightarrow> column" where
  "na_column (Int8 xs) k = Float64 (replicate k NaN)"
| "na_column (Int64 xs) k = Float64 (replicate k NaN)"
| "na_column (Float32 xs) k = Float32 (replicate k NaN)"
| "na_column (Float64 xs) k = Float64 (replicate k NaN)"
| "na_column (Object xs) k = Object (replicate k (ObjFloat NaN))"

definition pd_concat ::
  "string \<Rightarrow> 'i dataframe \<Rightarrow> string \<Rightarrow> 'i dataframe \<Rightarrow> (string \<times> 'i) dataframe" where
  "pd_concat ka a kb b =
     \<lparr>index = map (Pair ka) (index a) @ map (Pair kb) (index b),
      cols =
        map (\<lambda>(n, c). (n, case map_of (cols b) n of
                             Some c' \<Rightarrow> concat_column c c'
                           | None \<Rightarrow> concat_column c (na_column c (length (index b)))))
          (cols a)
        @ map (\<lambda>(n, c'). (n, concat_column (na_column c' (length (index a))) c'))
            (filter (\<lambda>(n, c'). n \<notin> set (columns_of a)) (cols b))\<rparr>"

text \<open>
  \<open>all_x.xs(key)\<close>: the rows whose first index level is \<open>key\<close>, indexed by the remaining
  level; KeyError when no row has that key.
\<close>

definition select_rows :: "bool list \<Rightarrow> 'a list \<Rightarrow> 'a list" where
  "select_rows keep xs = map snd (filter fst (zip keep xs))"

fun column_rows :: "bool list \<Rightarrow> column \<Rightarrow> column" where
  "column_rows keep (Int8 xs) = Int8 (select_rows keep xs)"
| "column_rows keep (Int64 xs) = Int64 (select_rows keep xs)"
| "column_rows keep (Float32 xs) = Float32 (select_rows keep xs)"
| "column_rows keep (Float64 xs) = Float64 (select_rows keep xs)"
| "column_rows keep (Object xs) = Object (select_rows keep xs)"

definition df_xs :: "string \<Rightarrow> (string \<times> 'i) dataframe \<Rightarrow> error + 'i dataframe" where
  "df_xs key df =
     (let keep = map (\<lambda>i. fst i = key) (index df)
      in if True \<notin> set keep then Inl (KeyError [key])
         else Inr \<lparr>index = map snd (select_rows keep (index df)),
                   cols = map (\<lambda>(n, c). (n, column_rows keep c)) (cols df)\<rparr>)"

text \<open>
  \<open>np.asarray(y).astype('float32').reshape((-1, 1))\<close>: one row with one float per
  label. The conversion of a string raises ValueError unless the string spells a
  number; the model raises for every string.
\<close>

fun obj_to_float :: "pyobj \<Rightarrow> error + pyfloat" where
  "obj_to_float (Str s) = Inl ValueError"
| "obj_to_float (ObjFloat v) = Inr v"
| "obj_to_float (ObjInt i) = Inr (Fin (of_int i))"

fun objs_to_floats :: "pyobj list \<Rightarrow> error + pyfloat list" where
  "objs_to_floats [] = Inr []"
| "objs_to_floats (v # vs) =
     (case obj_to_float v of
        Inl e \<Rightarrow> Inl e
      | Inr x \<Rightarrow> (case objs_to_floats vs of Inl e \<Rightarrow> Inl e | Inr xs \<Rightarrow> Inr (x # xs)))"

fun astype_float32 :: "column \<Rightarrow> error + pyfloat list" where
  "astype_float32 (Int8 xs) = Inr (of_ints xs)"
| "astype_float32 (Int64 xs) = Inr (of_ints xs)"
| "astype_float32 (Float32 xs) = Inr xs"
| "astype_float32 (Float64 xs) = Inr xs"
| "astype_float32 (Object xs) = objs_to_floats xs"

definition label_array :: "column \<Rightarrow> error + pyfloat list list" where
  "label_array y =
     (case astype_float32 y of
        Inl e \<Rightarrow> Inl e
      | Inr xs \<Rightarrow> Inr (map (\<lambda>v. [v]) xs))"

text \<open>
  \<open>load_data\<close> from the two frames that \<open>read_csv\<close> returns for the files of
  \<open>download\<close>; the parser itself is pandas' and is not modelled.
\<close>

definition load_data ::
  "'i dataframe \<Rightarrow> 'i dataframe \<Rightarrow>
   error + ('i dataframe \<times> pyfloat list list \<times> 'i dataframe \<times> pyfloat list list)" where
  "load_data train_df0 eval_df0 =
     (case preprocess train_df0 of Inl e \<Rightarrow> Inl e | Inr train_df \<Rightarrow>
      case preprocess eval_df0 of Inl e \<Rightarrow> Inl e | Inr eval_df \<Rightarrow>
      case df_pop LABEL_COLUMN train_df of Inl e \<Rightarrow> Inl e | Inr (train_y, train_x) \<Rightarrow>
      case df_pop LABEL_COLUMN eval_df of Inl e \<Rightarrow> Inl e | Inr (eval_y, eval_x) \<Rightarrow>
      let all_x = standardize (pd_concat ''train'' train_x ''eval'' eval_x)
      in case df_xs ''train'' all_x of Inl e \<Rightarrow> Inl e | Inr train_x' \<Rightarrow>
         case df_xs ''eval'' all_x of Inl e \<Rightarrow> Inl e | Inr eval_x' \<Rightarrow>
         case label_array train_y of Inl e \<Rightarrow> Inl e | Inr train_y' \<Rightarrow>
         case label_array eval_y of Inl e \<Rightarrow> Inl e | Inr eval_y' \<Rightarrow>
           Inr (train_x', train_y', eval_x', eval_y'))"

subsection \<open>Auxiliary definitions for the proofs\<close>

text \<open>
  What \<open>preprocess\<close> makes of one column that it keeps, given that it returns: first
  the lookup of the categories alone, then together with the widening of \<open>int64\<close>.
  \<open>declared\<close> is the condition on the labels under which every lookup in
  \<open>_CATEGORICAL_TYPES\<close> succeeds.
\<close>

fun encode_column :: "string \<Rightarrow> column \<Rightarrow> column" where
  "encode_column n (Object []) = Object []"
| "encode_column n (Object (v # vs)) =
     (case CATEGORICAL_TYPES n of
        None \<Rightarrow> Object (v # vs)
      | Some categories \<Rightarrow>
          Int8 (map (cat_code categories) (map (astype_category categories) (v # vs))))"
| "encode_column n c = c"

definition encoded :: "string \<Rightarrow> column \<Rightarrow> column" where
  "encoded n c = encode_column n (int64_to_float32 c)"

definition declared :: "(string \<times> column) list \<Rightarrow> bool" where
  "declared cs \<longleftrightarrow>
     list_all (\<lambda>(n, c). dtype_name c = ''object'' \<and> n \<notin> set UNUSED_COLUMNS
                 \<longrightarrow> CATEGORICAL_TYPES n \<noteq> None) cs"

text \<open>What the loop of \<open>standardize\<close> makes of one column.\<close>

definition zscore_column :: "column \<Rightarrow> column" where
  "zscore_column c = float32_map div_std (float32_map sub_mean c)"

text \<open>
  The intermediate values of \<open>load_data\<close>: the feature frame left by \<open>pop\<close>, the
  concatenated frame, and the rows that \<open>xs\<close> selects from it for each key.
\<close>

definition features :: "'i dataframe \<Rightarrow> 'i dataframe" where
  "features df = df\<lparr>cols := filter (\<lambda>(n, c). n \<noteq> LABEL_COLUMN) (cols df)\<rparr>"

definition combined :: "'i dataframe \<Rightarrow> 'i dataframe \<Rightarrow> (string \<times> 'i) dataframe" where
  "combined a1 b1 = pd_concat ''train'' (features a1) ''eval'' (features b1)"

definition train_rows :: "'i dataframe \<Rightarrow> 'i dataframe \<Rightarrow> bool list" where
  "train_rows a b = replicate (length (index a)) True @ replicate (length (index b)) False"

definition eval_rows :: "'i dataframe \<Rightarrow> 'i dataframe \<Rightarrow> bool list" where
  "eval_rows a b = replicate (length (index a)) False @ replicate (length (index b)) True"

text \<open>
  The frames on which \<open>load_data\<close> returns: well formed, with the three unused columns
  and the label column, with declared categories for every \<open>object\<close> column that is kept,
  and with at least one row (otherwise \<open>xs\<close> raises KeyError).
\<close>

definition loadable :: "'i dataframe \<Rightarrow> bool" where
  "loadable df \<longleftrightarrow>
     wf_frame df \<and> set UNUSED_COLUMNS \<subseteq> set (columns_of df) \<and> declared (cols df)
     \<and> LABEL_COLUMN \<in> set (columns_of df) \<and> index df \<noteq> []"

text \<open>
  The label array expected for a text label: 0 for \<open><=50K\<close>, 1 for \<open>>50K\<close>, -1 for
  anything else. The projections of a result of \<open>load_data\<close> are empty when the call
  failed.
\<close>

fun label_value :: "pyobj \<Rightarrow> real" where
  "label_value (Str s) = (if s = ''<=50K'' then 0 else if s = ''>50K'' then 1 else - 1)"
| "label_value v = - 1"

definition train_x_of ::
  "error + ('i dataframe \<times> pyfloat list list \<times> 'i dataframe \<times> pyfloat list list)
   \<Rightarrow> (string \<times> column) list" where
  "train_x_of r = (case r of Inl e \<Rightarrow> [] | Inr (train_x, train_y, eval_x, eval_y) \<Rightarrow> cols train_x)"

definition eval_y_of ::
  "error + ('i dataframe \<times> pyfloat list list \<times> 'i dataframe \<times> pyfloat list list)
   \<Rightarrow> pyfloat list list" where
  "eval_y_of r = (case r of Inl e \<Rightarrow> [] | Inr (train_x, train_y, eval_x, eval_y) \<Rightarrow> eval_y)"

definition eval_x_of ::
  "error + ('i dataframe \<times> pyfloat list list \<times> 'i dataframe \<times> pyfloat list list)
   \<Rightarrow> (string \<times> column) list" where
  "eval_x_of r = (case r of Inl e \<Rightarrow> [] | Inr (train_x, train_y, eval_x, eval_y) \<Rightarrow> cols eval_x)"


subsection \<open>Concrete inputs used below\<close>

text \<open>The raw line of the specification's end-to-end scenario and its cleaned form.\<close>

definition example_raw_line :: string where
  "example_raw_line = ''39, State-gov, 77516, Bachelors, 13, Never-married, Adm-clerical, Not-in-family, White, Male, 2174, 0, 40, United-States, <=50K.''"

definition example_clean_line :: string where
  "example_clean_line = ''39,State-gov,77516,Bachelors,13,Never-married,Adm-clerical,Not-in-family,White,Male,2174,0,40,United-States,<=50K\<newline>''"

text \<open>
  A world in which both cleaned files are already cached, and a network on which every
  request fails.
\<close>

definition cached_world :: world where
  "cached_world =
     \<lparr>files = [''/tmp/census_data/adult.data.csv'' \<mapsto> ''39,State-gov,<=50K\<newline>'',
               ''/tmp/census_data/adult.test.csv'' \<mapsto> ''25,Private,>50K\<newline>''],
      dirs = {''/tmp/census_data''},
      temp_files = [],
      requests = []\<rparr>"

definition unreachable :: "string \<Rightarrow> string option" where
  "unreachable url = None"


text \<open>
  A training frame as \<open>read_csv\<close> returns it for two rows of the census data (the
  second with a missing work class), and the frame \<open>preprocess\<close> makes of it.
\<close>

definition census_train :: "nat dataframe" where
  "census_train = \<lparr>index = [0, 1],
     cols = [(''age'', Int64 [39, 50]),
             (''workclass'', Object [Str ''State-gov'', ObjFloat NaN]),
             (''fnlwgt'', Int64 [77516, 83311]),
             (''education'', Object [Str ''Bachelors'', Str ''Bachelors'']),
             (''education_num'', Int64 [13, 13]),
             (''marital_status'', Object [Str ''Never-married'', Str ''Married-civ-spouse'']),
             (''occupation'', Object [Str ''Adm-clerical'', Str ''Exec-managerial'']),
             (''relationship'', Object [Str ''Not-in-family'', Str ''Husband'']),
             (''race'', Object [Str ''White'', Str ''White'']),
             (''gender'', Object [Str ''Male'', Str ''Male'']),
             (''capital_gain'', Int64 [2174, 0]),
             (''capital_loss'', Int64 [0, 0]),
             (''hours_per_week'', Int64 [40, 13]),
             (''native_country'', Object [Str ''United-States'', Str ''Holand-Netherlands'']),
             (''income_bracket'', Object [Str ''<=50K'', Str ''>50K''])]\<rparr>"

definition census_train_encoded :: "nat dataframe" where
  "census_train_encoded = \<lparr>index = [0, 1],
     cols = [(''age'', Float32 [Fin 39, Fin 50]),
             (''workclass'', Int8 [6, - 1]),
             (''education_num'', Float32 [Fin 13, Fin 13]),
             (''marital_status'', Int8 [4, 2]),
             (''occupation'', Int8 [0, 3]),
             (''relationship'', Int8 [1, 0]),
             (''race'', Int8 [4, 4]),
             (''capital_gain'', Float32 [Fin 2174, Fin 0]),
             (''capital_loss'', Float32 [Fin 0, Fin 0]),
             (''hours_per_week'', Float32 [Fin 40, Fin 13]),
             (''native_country'', Int8 [38, 14]),
             (''income_bracket'', Int8 [0, 1])]\<rparr>"

text \<open>
  An evaluation frame of two census rows, the second with a missing label; the training
  frame with the age of its second row missing, which makes the column \<open>float64\<close>; the
  evaluation frame with the label of every row missing, which makes the label column
  \<open>float64\<close>.
\<close>

definition census_eval :: "nat dataframe" where
  "census_eval = \<lparr>index = [0, 1],
     cols = [(''age'', Int64 [25, 38]),
             (''workclass'', Object [Str ''Private'', Str ''Private'']),
             (''fnlwgt'', Int64 [226802, 89814]),
             (''education'', Object [Str ''11th'', Str ''HS-grad'']),
             (''education_num'', Int64 [7, 9]),
             (''marital_status'', Object [Str ''Never-married'', Str ''Married-civ-spouse'']),
             (''occupation'', Object [Str ''Machine-op-inspct'', Str ''Farming-fishing'']),
             (''relationship'', Object [Str ''Own-child'', Str ''Husband'']),
             (''race'', Object [Str ''Black'', Str ''White'']),
             (''gender'', Object [Str ''Male'', Str ''Male'']),
             (''capital_gain'', Int64 [0, 0]),
             (''capital_loss'', Int64 [0, 0]),
             (''hours_per_week'', Int64 [40, 50]),
             (''native_country'', Object [Str ''United-States'', Str ''United-States'']),
             (''income_bracket'', Object [Str ''<=50K'', ObjFloat NaN])]\<rparr>"

definition census_train_na :: "nat dataframe" where
  "census_train_na = \<lparr>index = [0, 1],
     cols = [(''age'', Float64 [Fin 39, NaN]),
             (''workclass'', Object [Str ''State-gov'', ObjFloat NaN]),
             (''fnlwgt'', Int64 [77516, 83311]),
             (''education'', Object [Str ''Bachelors'', Str ''Bachelors'']),
             (''education_num'', Int64 [13, 13]),
             (''marital_status'', Object [Str ''Never-married'', Str ''Married-civ-spouse'']),
             (''occupation'', Object [Str ''Adm-clerical'', Str ''Exec-managerial'']),
             (''relationship'', Object [Str ''Not-in-family'', Str ''Husband'']),
             (''race'', Object [Str ''White'', Str ''White'']),
             (''gender'', Object [Str ''Male'', Str ''Male'']),
             (''capital_gain'', Int64 [2174, 0]),
             (''capital_loss'', Int64 [0, 0]),
             (''hours_per_week'', Int64 [40, 13]),
             (''native_country'', Object [Str ''United-States'', Str ''Holand-Netherlands'']),
             (''income_bracket'', Object [Str ''<=50K'', Str ''>50K''])]\<rparr>"

definition census_eval_unlabelled :: "nat dataframe" where
  "census_eval_unlabelled = \<lparr>index = [0, 1],
     cols = [(''age'', Int64 [25, 38]),
             (''workclass'', Object [Str ''Private'', Str ''Private'']),
             (''fnlwgt'', Int64 [226802, 89814]),
             (''education'', Object [Str ''11th'', Str ''HS-grad'']),
             (''education_num'', Int64 [7, 9]),
             (''marital_status'', Object [Str ''Never-married'', Str ''Married-civ-spouse'']),
             (''occupation'', Object [Str ''Machine-op-inspct'', Str ''Farming-fishing'']),
             (''relationship'', Object [Str ''Own-child'', Str ''Husband'']),
             (''race'', Object [Str ''Black'', Str ''White'']),
             (''gender'', Object [Str ''Male'', Str ''Male'']),
             (''capital_gain'', Int64 [0, 0]),
             (''capital_loss'', Int64 [0, 0]),
             (''hours_per_week'', Int64 [40, 50]),
             (''native_country'', Object [Str ''United-States'', Str ''United-States'']),
             (''income_bracket'', Float64 [NaN, NaN])]\<rparr>"


definition census_train_workclass_numeric :: "nat dataframe" where
  "census_train_workclass_numeric = \<lparr>index = [0, 1],
     cols = [(''age'', Int64 [39, 50]),
             (''workclass'', Int64 [1, 3]),
             (''fnlwgt'', Int64 [77516, 83311]),
             (''education'', Object [Str ''Bachelors'', Str ''Bachelors'']),
             (''education_num'', Int64 [13, 13]),
             (''marital_status'', Object [Str ''Never-married'', Str ''Married-civ-spouse'']),
             (''occupation'', Object [Str ''Adm-clerical'', Str ''Exec-managerial'']),
             (''relationship'', Object [Str ''Not-in-family'', Str ''Husband'']),
             (''race'', Object [Str ''White'', Str ''White'']),
             (''gender'', Object [Str ''Male'', Str ''Male'']),
             (''capital_gain'', Int64 [2174, 0]),
             (''capital_loss'', Int64 [0, 0]),
             (''hours_per_week'', Int64 [40, 13]),
             (''native_country'', Object [Str ''United-States'', Str ''Holand-Netherlands'']),
             (''income_bracket'', Object [Str ''<=50K'', Str ''>50K''])]\<rparr>"

section \<open>Properties of the cleaning pass\<close>

lemma dropWhile_split_all:
  "\<exists>pre. s = pre @ dropWhile P s \<and> list_all P pre"
proof -
  have "s = takeWhile P s @ dropWhile P s" by simp
  moreover have "list_all P (takeWhile P s)"
    by (simp add: list_all_iff) (meson set_takeWhileD)
  ultimately show ?thesis by blast
qed

lemma dropWhile_hd_not: "dropWhile P s \<noteq> [] \<Longrightarrow> \<not> P (hd (dropWhile P s))"
  by (simp add: hd_dropWhile)

lemma str_rstrip_split:
  "\<exists>post. s = str_rstrip s @ post \<and> list_all is_space post"
proof -
  obtain pre where p: "rev s = pre @ dropWhile is_space (rev s)" "list_all is_space pre"
    using dropWhile_split_all by blast
  have "s = rev (rev s)" by simp
  also have "\<dots> = rev (dropWhile is_space (rev s)) @ rev pre"
    using p(1) by (metis rev_append)
  finally have "s = str_rstrip s @ rev pre" by (simp add: str_rstrip_def)
  moreover have "list_all is_space (rev pre)" using p(2) by (simp add: list_all_iff)
  ultimately show ?thesis by blast
qed

lemma str_rstrip_last_not:
  "str_rstrip s \<noteq> [] \<Longrightarrow> \<not> is_space (last (str_rstrip s))"
  unfolding str_rstrip_def
  by (metis dropWhile_hd_not last_rev rev_is_Nil_conv rev_rev_ident)

lemma str_rstrip_hd:
  assumes "s \<noteq> []" "\<not> is_space (hd s)"
  shows "str_rstrip s \<noteq> [] \<and> hd (str_rstrip s) = hd s"
proof -
  obtain c cs where s: "s = c # cs" using assms(1) by (cases s) auto
  have c: "\<not> is_space c" using assms(2) s by simp
  have "dropWhile is_space (rev cs @ [c]) = dropWhile is_space (rev cs) @ [c]"
    using c by (simp add: dropWhile_append)
  then have "str_rstrip s = c # rev (dropWhile is_space (rev cs))"
    by (simp add: str_rstrip_def s)
  then show ?thesis by (simp add: s)
qed

lemma str_strip_spec:
  "\<exists>pre post. s = pre @ str_strip s @ post \<and> list_all is_space pre \<and> list_all is_space post"
proof -
  obtain pre where a: "s = pre @ str_lstrip s" "list_all is_space pre"
    unfolding str_lstrip_def using dropWhile_split_all by blast
  obtain post where b: "str_lstrip s = str_strip s @ post" "list_all is_space post"
    unfolding str_strip_def using str_rstrip_split by blast
  have "s = pre @ str_strip s @ post" using a(1) b(1) by simp
  then show ?thesis using a(2) b(2) by blast
qed

lemma str_strip_ends:
  assumes "str_strip s \<noteq> []"
  shows "\<not> is_space (hd (str_strip s)) \<and> \<not> is_space (last (str_strip s))"
proof -
  have ne: "str_lstrip s \<noteq> []"
    using assms by (auto simp: str_strip_def str_rstrip_def)
  then have h: "\<not> is_space (hd (str_lstrip s))"
    unfolding str_lstrip_def by (rule dropWhile_hd_not)
  have "hd (str_strip s) = hd (str_lstrip s)"
    unfolding str_strip_def using str_rstrip_hd [OF ne h] by simp
  moreover have "\<not> is_space (last (str_strip s))"
    unfolding str_strip_def using assms str_rstrip_last_not by (simp add: str_strip_def)
  ultimately show ?thesis using h by simp
qed

lemma length_str_split: "length (str_split sep s) = Suc (count_list s sep)"
  by (induction s) (auto split: list.splits)

lemma count_list_pos_iff: "0 < count_list s c \<longleftrightarrow> c \<in> set s"
  by (induction s) auto

lemma clean_line_example: "clean_line example_raw_line = Some example_clean_line"
  unfolding example_raw_line_def example_clean_line_def by code_simp

text \<open>
  Claim C6. For every input line the cleaning pass trims the surrounding whitespace
  (the line is the trimmed string between two runs of whitespace, and the trimmed
  string neither starts nor ends with whitespace), replaces \<open>", "\<close> by \<open>","\<close>, discards
  the line when the result is empty or has no comma, removes one trailing period and
  appends a line feed. The raw line of the end-to-end scenario is turned into exactly
  the expected cleaned line.
\<close>

theorem clean_line_steps:
  "(\<exists>pre post. line = pre @ str_strip line @ post \<and> list_all is_space pre \<and> list_all is_space post)
   \<and> (str_strip line \<noteq> [] \<longrightarrow>
        \<not> is_space (hd (str_strip line)) \<and> \<not> is_space (last (str_strip line)))
   \<and> clean_line line =
       (let s = str_replace '', '' '','' (str_strip line)
        in if s = [] \<or> CHR '','' \<notin> set s then None
           else if last s = CHR ''.'' then Some (butlast s @ ''\<newline>'')
           else Some (s @ ''\<newline>''))
   \<and> clean_line example_raw_line = Some example_clean_line"
  using str_strip_spec [of line] str_strip_ends [of line] clean_line_example
  by (simp add: clean_line_def Let_def)

text \<open>The scenario line is a non-empty input of C6.\<close>

theorem clean_line_steps_witness:
  "str_strip example_raw_line \<noteq> []
   \<and> \<not> is_space (hd (str_strip example_raw_line))
   \<and> \<not> is_space (last (str_strip example_raw_line))
   \<and> clean_line example_raw_line = Some example_clean_line"
proof -
  have ne: "str_strip example_raw_line \<noteq> []"
    unfolding example_raw_line_def by code_simp
  show ?thesis
    using clean_line_steps [of example_raw_line] ne by blast
qed

text \<open>
  Claim C4, as amended. A retained line is a body followed by a line feed; the body
  contains a comma, so it has at least two comma-separated fields, and it ends with a
  period only when the trimmed and comma-normalised input ended with two periods.
  A line is dropped exactly when, after trimming and comma normalisation, it is empty
  or has no comma: nothing in the pass counts fields.
\<close>

theorem clean_line_retained:
  "(clean_line line = Some out \<longrightarrow>
      (\<exists>body. out = body @ ''\<newline>''
         \<and> CHR '','' \<in> set body
         \<and> 2 \<le> length (str_split CHR '','' body)
         \<and> (last body = CHR ''.'' \<longrightarrow>
              suffix ''..'' (str_replace '', '' '','' (str_strip line)))))
   \<and> (clean_line line = None \<longleftrightarrow>
        (str_replace '', '' '','' (str_strip line) = []
         \<or> CHR '','' \<notin> set (str_replace '', '' '','' (str_strip line))))"
proof -
  define s where "s = str_replace '', '' '','' (str_strip line)"
  have cl: "clean_line line =
       (if s = [] \<or> CHR '','' \<notin> set s then None
        else if last s = CHR ''.'' then Some (butlast s @ ''\<newline>'')
        else Some (s @ ''\<newline>''))"
    by (simp add: clean_line_def Let_def s_def)
  have none: "clean_line line = None \<longleftrightarrow> (s = [] \<or> CHR '','' \<notin> set s)"
    by (simp add: cl)
  have some: "\<exists>body. out = body @ ''\<newline>'' \<and> CHR '','' \<in> set body
         \<and> 2 \<le> length (str_split CHR '','' body)
         \<and> (last body = CHR ''.'' \<longrightarrow> suffix ''..'' s)"
    if r: "clean_line line = Some out"
  proof -
    from r cl have ne: "s \<noteq> []" and comma: "CHR '','' \<in> set s"
      by (auto split: if_splits)
    show ?thesis
    proof (cases "last s = CHR ''.''")
      case True
      with r cl ne comma have out: "out = butlast s @ ''\<newline>''" by simp
      have s: "s = butlast s @ ''.''" using True ne
        by (metis append_butlast_last_id)
      have c2: "CHR '','' \<in> set (butlast s)"
      proof -
        have "set s = set (butlast s) \<union> {CHR ''.''}" by (subst s) simp
        then show ?thesis using comma by auto
      qed
      have "suffix ''..'' s" if "last (butlast s) = CHR ''.''"
      proof -
        have "butlast s \<noteq> []" using c2 by auto
        then have "butlast s = butlast (butlast s) @ ''.''"
          using that by (metis append_butlast_last_id)
        then have "s = (butlast (butlast s) @ ''.'') @ ''.''" using s by simp
        then have "s = butlast (butlast s) @ ''..''" by simp
        then show ?thesis by (rule suffixI)
      qed
      moreover have "2 \<le> length (str_split CHR '','' (butlast s))"
        using c2 count_list_pos_iff [of "butlast s" "CHR '',''"] by (simp add: length_str_split)
      ultimately show ?thesis using out c2 by blast
    next
      case False
      with r cl ne comma have out: "out = s @ ''\<newline>''" by simp
      have "2 \<le> length (str_split CHR '','' s)"
        using comma count_list_pos_iff [of s "CHR '',''"] by (simp add: length_str_split)
      then show ?thesis using out comma False by blast
    qed
  qed
  show ?thesis using none some unfolding s_def by blast
qed

text \<open>A retained line with two fields whose input ended with two periods.\<close>

theorem clean_line_retained_witness:
  "clean_line ''1,2..  '' = Some ''1,2.\<newline>''
   \<and> (\<exists>body. ''1,2.\<newline>'' = body @ ''\<newline>'' \<and> CHR '','' \<in> set body
         \<and> 2 \<le> length (str_split CHR '','' body)
         \<and> (last body = CHR ''.'' \<longrightarrow> suffix ''..'' (str_replace '', '' '','' (str_strip ''1,2..  ''))))"
proof -
  have h: "clean_line ''1,2..  '' = Some ''1,2.\<newline>''" by code_simp
  show ?thesis
    using clean_line_retained [of "''1,2..  ''" "''1,2.\<newline>''"] h by blast
qed

text \<open>
  Claim C4 as stated fails: the two-field line \<open>a,b\<close> is retained, and the line
  \<open>a,b..\<close> is retained with a body that still ends with a period.
\<close>

theorem clean_line_fields_counterexample:
  "clean_line ''a,b'' = Some ''a,b\<newline>''
   \<and> length (str_split CHR '','' ''a,b'') \<noteq> 15
   \<and> clean_line ''a,b..'' = Some ''a,b.\<newline>''
   \<and> last ''a,b.'' = CHR ''.''"
proof -
  have "clean_line ''a,b'' = Some ''a,b\<newline>''" by code_simp
  moreover have "length (str_split CHR '','' ''a,b'') = 2" by code_simp
  moreover have "clean_line ''a,b..'' = Some ''a,b.\<newline>''" by code_simp
  ultimately show ?thesis by simp
qed

section \<open>Properties of the download\<close>

text \<open>
  Claim C7. When both destination files exist, \<open>download\<close> returns the two paths
  without any request to the network, the files (and the temporary area) are left as
  they were, and a further call behaves the same.
\<close>

theorem download_idempotent:
  assumes "files w (path_join data_dir TRAINING_FILE) \<noteq> None"
    and "files w (path_join data_dir EVAL_FILE) \<noteq> None"
  shows "\<exists>w'. download net data_dir w =
            Inr ((path_join data_dir TRAINING_FILE, path_join data_dir EVAL_FILE), w')
          \<and> files w' = files w \<and> requests w' = requests w \<and> temp_files w' = temp_files w
          \<and> download net data_dir w' = download net data_dir w"
proof -
  let ?w' = "gfile_makedirs data_dir w"
  have e1: "gfile_exists ?w' (path_join data_dir TRAINING_FILE)"
    and e2: "gfile_exists ?w' (path_join data_dir EVAL_FILE)"
    using assms by (simp_all add: gfile_exists_def gfile_makedirs_def)
  have d: "download net data_dir w =
      Inr ((path_join data_dir TRAINING_FILE, path_join data_dir EVAL_FILE), ?w')"
    using e1 e2 by (simp add: download_def Let_def)
  have idem: "gfile_makedirs data_dir ?w' = ?w'"
    by (simp add: gfile_makedirs_def)
  have "download net data_dir ?w' =
      Inr ((path_join data_dir TRAINING_FILE, path_join data_dir EVAL_FILE), ?w')"
    using e1 e2 by (simp add: download_def Let_def idem)
  then show ?thesis using d by (simp add: gfile_makedirs_def)
qed

text \<open>With both files cached, \<open>download\<close> succeeds even when the network is unreachable.\<close>

theorem download_idempotent_witness:
  "files cached_world (path_join ''/tmp/census_data'' TRAINING_FILE) \<noteq> None
   \<and> files cached_world (path_join ''/tmp/census_data'' EVAL_FILE) \<noteq> None
   \<and> (\<exists>w'. download unreachable ''/tmp/census_data'' cached_world =
            Inr ((''/tmp/census_data/adult.data.csv'', ''/tmp/census_data/adult.test.csv''), w')
          \<and> files w' = files cached_world \<and> requests w' = [])"
proof -
  have p1: "path_join ''/tmp/census_data'' TRAINING_FILE = ''/tmp/census_data/adult.data.csv''"
    by (simp add: path_join_def TRAINING_FILE_def)
  have p2: "path_join ''/tmp/census_data'' EVAL_FILE = ''/tmp/census_data/adult.test.csv''"
    by (simp add: path_join_def EVAL_FILE_def)
  have h1: "files cached_world (path_join ''/tmp/census_data'' TRAINING_FILE) \<noteq> None"
    unfolding p1 by (simp add: cached_world_def)
  have h2: "files cached_world (path_join ''/tmp/census_data'' EVAL_FILE) \<noteq> None"
    unfolding p2 by (simp add: cached_world_def)
  have r: "requests cached_world = []" by (simp add: cached_world_def)
  show ?thesis
    using download_idempotent [OF h1 h2, of unreachable] h1 h2 unfolding p1 p2 r
    by auto
qed

text \<open>
  The other branches of \<open>download\<close>: a missing file is fetched and cleaned; when the
  cleaning retains no line no file is created; an unreachable resource is an error.
\<close>

lemma path_join_files_differ:
  "path_join d TRAINING_FILE \<noteq> path_join d EVAL_FILE"
  by (auto simp: path_join_def TRAINING_FILE_def EVAL_FILE_def)

lemma download_fetches_missing:
  assumes "\<not> gfile_exists (gfile_makedirs data_dir w) (path_join data_dir TRAINING_FILE)"
    and "\<not> gfile_exists (gfile_makedirs data_dir w) (path_join data_dir EVAL_FILE)"
    and "net TRAINING_URL = Some a" and "net EVAL_URL = Some b"
    and "clean_lines (readlines a) \<noteq> []" and "clean_lines (readlines b) \<noteq> []"
  shows "\<exists>w'. download net data_dir w =
            Inr ((path_join data_dir TRAINING_FILE, path_join data_dir EVAL_FILE), w')
          \<and> requests w' = requests w @ [TRAINING_URL, EVAL_URL]
          \<and> files w' (path_join data_dir TRAINING_FILE) = Some (clean_lines (readlines a))
          \<and> files w' (path_join data_dir EVAL_FILE) = Some (clean_lines (readlines b))
          \<and> temp_files w' = temp_files w"
  using assms path_join_files_differ [of data_dir]
  by (simp add: download_def download_and_clean_file_def Let_def gfile_exists_def
      gfile_makedirs_def)

lemma download_nothing_retained:
  assumes "\<not> gfile_exists (gfile_makedirs data_dir w) (path_join data_dir TRAINING_FILE)"
    and "\<not> gfile_exists (gfile_makedirs data_dir w) (path_join data_dir EVAL_FILE)"
    and "net TRAINING_URL = Some a" and "net EVAL_URL = Some b"
    and "clean_lines (readlines a) = []" and "clean_lines (readlines b) = []"
  shows "\<exists>w'. download net data_dir w =
            Inr ((path_join data_dir TRAINING_FILE, path_join data_dir EVAL_FILE), w')
          \<and> requests w' = requests w @ [TRAINING_URL, EVAL_URL]
          \<and> files w' = files w"
  using assms
  by (simp add: download_def download_and_clean_file_def Let_def gfile_exists_def
      gfile_makedirs_def)

lemma download_unreachable:
  assumes "\<not> gfile_exists (gfile_makedirs data_dir w) (path_join data_dir TRAINING_FILE)"
    and "net TRAINING_URL = None"
  shows "download net data_dir w = Inl (URLError TRAINING_URL)"
  using assms by (simp add: download_def download_and_clean_file_def Let_def)

section \<open>Properties of \<open>preprocess\<close>\<close>

lemma encode_categorical_Inr:
  "encode_categorical cs = Inr cs' \<Longrightarrow> cs' = map (\<lambda>(n, c). (n, encode_column n c)) cs"
  by (induction cs arbitrary: cs' rule: encode_categorical.induct)
     (auto split: option.splits sum.splits)

lemma encode_categorical_ok:
  "list_all (\<lambda>(n, c). dtype_name c = ''object'' \<longrightarrow> CATEGORICAL_TYPES n \<noteq> None) cs
   \<Longrightarrow> \<exists>cs'. encode_categorical cs = Inr cs'"
  by (induction cs rule: encode_categorical.induct)
     (auto split: option.splits sum.splits)

lemma dtype_name_int64_to_float32:
  "dtype_name (int64_to_float32 c) = ''object'' \<longleftrightarrow> dtype_name c = ''object''"
  by (cases c) simp_all

lemma preprocess_Inr:
  assumes "preprocess df = Inr df'"
  shows "cols df' = map (\<lambda>(n, c). (n, encode_column n (int64_to_float32 c)))
                      (filter (\<lambda>(n, c). n \<notin> set UNUSED_COLUMNS) (cols df))"
    and "index df' = index df"
    and "set UNUSED_COLUMNS \<subseteq> set (columns_of df)"
proof -
  from assms obtain df1 where d1: "df_drop UNUSED_COLUMNS df = Inr df1"
    by (auto simp: preprocess_def split: sum.splits)
  then have miss: "filter (\<lambda>n. n \<notin> set (columns_of df)) UNUSED_COLUMNS = []"
    and df1: "df1 = df\<lparr>cols := filter (\<lambda>(n, c). n \<notin> set UNUSED_COLUMNS) (cols df)\<rparr>"
    by (auto simp: df_drop_def Let_def split: if_splits)
  let ?cs2 = "map (\<lambda>(n, c). (n, int64_to_float32 c)) (cols df1)"
  from assms d1 obtain cs where e: "encode_categorical ?cs2 = Inr cs"
    and r: "df' = df1\<lparr>cols := cs\<rparr>"
    by (auto simp: preprocess_def Let_def split: sum.splits)
  have "cs = map (\<lambda>(n, c). (n, encode_column n c)) ?cs2"
    using encode_categorical_Inr [OF e] .
  then show "cols df' = map (\<lambda>(n, c). (n, encode_column n (int64_to_float32 c)))
                      (filter (\<lambda>(n, c). n \<notin> set UNUSED_COLUMNS) (cols df))"
    using r df1 by (simp add: case_prod_unfold comp_def)
  show "index df' = index df" using r df1 by simp
  show "set UNUSED_COLUMNS \<subseteq> set (columns_of df)"
    using miss by (auto simp: filter_empty_conv)
qed

lemma preprocess_ok:
  assumes "set UNUSED_COLUMNS \<subseteq> set (columns_of df)" and "declared (cols df)"
  shows "\<exists>df'. preprocess df = Inr df'"
proof -
  have miss: "filter (\<lambda>n. n \<notin> set (columns_of df)) UNUSED_COLUMNS = []"
    using assms(1) by (auto simp: filter_empty_conv)
  let ?df1 = "df\<lparr>cols := filter (\<lambda>(n, c). n \<notin> set UNUSED_COLUMNS) (cols df)\<rparr>"
  have d1: "df_drop UNUSED_COLUMNS df = Inr ?df1"
    using miss by (simp add: df_drop_def Let_def)
  let ?cs2 = "map (\<lambda>(n, c). (n, int64_to_float32 c)) (cols ?df1)"
  have "list_all (\<lambda>(n, c). dtype_name c = ''object'' \<longrightarrow> CATEGORICAL_TYPES n \<noteq> None) ?cs2"
    using assms(2)
    by (auto simp: declared_def list_all_iff dtype_name_int64_to_float32)
  then obtain cs where "encode_categorical ?cs2 = Inr cs"
    using encode_categorical_ok by blast
  then show ?thesis using d1 by (simp add: preprocess_def Let_def)
qed

lemma columns_of_preprocess:
  assumes "preprocess df = Inr df'"
  shows "columns_of df' = filter (\<lambda>n. n \<notin> set UNUSED_COLUMNS) (columns_of df)"
  unfolding columns_of_def preprocess_Inr(1) [OF assms]
  by (simp add: filter_map comp_def case_prod_unfold)

lemma preprocess_census_train: "preprocess census_train = Inr census_train_encoded"
  unfolding census_train_def census_train_encoded_def by code_simp

lemma declared_label:
  assumes "CATEGORICAL_TYPES n = Some categories"
  shows "n \<notin> set UNUSED_COLUMNS" and "''?'' \<notin> set categories"
  using assms
  by (auto simp: CATEGORICAL_TYPES_def CATEGORICAL_TYPES_items_def UNUSED_COLUMNS_def
      split: if_splits)

lemma index_of_less: "x \<in> set xs \<Longrightarrow> index_of xs x < length xs \<and> xs ! index_of xs x = x"
  by (induction xs) auto

lemma encode_column_Object:
  "vs \<noteq> [] \<Longrightarrow> CATEGORICAL_TYPES n = Some categories \<Longrightarrow>
   encode_column n (Object vs)
   = Int8 (map (cat_code categories) (map (astype_category categories) vs))"
  by (cases vs) simp_all

lemma encoded_object_column:
  assumes "preprocess df = Inr df'"
    and "(n, Object vs) \<in> set (cols df)"
    and "CATEGORICAL_TYPES n = Some categories"
    and "vs \<noteq> []"
  shows "(n, Int8 (map (cat_code categories) (map (astype_category categories) vs)))
           \<in> set (cols df')"
proof -
  have "n \<notin> set UNUSED_COLUMNS" using assms(3) by (rule declared_label)
  then have "(n, Object vs) \<in> set (filter (\<lambda>(n, c). n \<notin> set UNUSED_COLUMNS) (cols df))"
    using assms(2) by simp
  then have "(n, encode_column n (int64_to_float32 (Object vs))) \<in> set (cols df')"
    unfolding preprocess_Inr(1) [OF assms(1)] by force
  then show ?thesis using encode_column_Object [OF assms(4,3)] by simp
qed

text \<open>
  Claim C9. Whenever \<open>preprocess\<close> returns a frame, that frame has none of the columns
  \<open>fnlwgt\<close>, \<open>education\<close> and \<open>gender\<close>; its columns are the other columns of the
  input, in their order, and the rows are those of the input.
\<close>

theorem preprocess_drops_unused:
  assumes "preprocess df = Inr df'"
  shows "''fnlwgt'' \<notin> set (columns_of df') \<and> ''education'' \<notin> set (columns_of df')
         \<and> ''gender'' \<notin> set (columns_of df')
         \<and> columns_of df' = filter (\<lambda>n. n \<notin> set UNUSED_COLUMNS) (columns_of df)
         \<and> index df' = index df"
  using columns_of_preprocess [OF assms] preprocess_Inr(2) [OF assms]
  by (simp add: UNUSED_COLUMNS_def)

text \<open>\<open>preprocess\<close> returns on the census frame, with the twelve other columns.\<close>

theorem preprocess_drops_unused_witness:
  "preprocess census_train = Inr census_train_encoded
   \<and> columns_of census_train_encoded =
       [''age'', ''workclass'', ''education_num'', ''marital_status'', ''occupation'',
        ''relationship'', ''race'', ''capital_gain'', ''capital_loss'', ''hours_per_week'',
        ''native_country'', ''income_bracket'']
   \<and> columns_of census_train_encoded =
       filter (\<lambda>n. n \<notin> set UNUSED_COLUMNS) (columns_of census_train)"
proof -
  have "columns_of census_train_encoded =
       [''age'', ''workclass'', ''education_num'', ''marital_status'', ''occupation'',
        ''relationship'', ''race'', ''capital_gain'', ''capital_loss'', ''hours_per_week'',
        ''native_country'', ''income_bracket'']"
    by (simp add: columns_of_def census_train_encoded_def)
  then show ?thesis
    using preprocess_drops_unused [OF preprocess_census_train] preprocess_census_train
    by simp
qed

text \<open>
  Claim C8. In any frame, whatever its other rows and columns, a value of a categorical
  column that belongs to the declared categories of the column is encoded as its
  position in that declaration.
\<close>

theorem preprocess_codes_stable:
  assumes "preprocess df = Inr df'"
    and "(n, Object vs) \<in> set (cols df)"
    and "CATEGORICAL_TYPES n = Some categories"
    and "k < length vs" and "vs ! k = Str s" and "s \<in> set categories"
  shows "\<exists>codes. (n, Int8 codes) \<in> set (cols df') \<and> length codes = length vs
           \<and> codes ! k = int (index_of categories s)
           \<and> index_of categories s < length categories
           \<and> categories ! index_of categories s = s"
proof -
  let ?codes = "map (cat_code categories) (map (astype_category categories) vs)"
  have "vs \<noteq> []" using assms(4) by auto
  then have "(n, Int8 ?codes) \<in> set (cols df')"
    using encoded_object_column [OF assms(1-3)] by simp
  moreover have "?codes ! k = int (index_of categories s)"
    using assms(4-6) by simp
  moreover have "length ?codes = length vs" by simp
  ultimately show ?thesis using index_of_less [OF assms(6)] by blast
qed

text \<open>\<open>Holand-Netherlands\<close> in \<open>native_country\<close> is encoded as 14.\<close>

theorem preprocess_codes_stable_witness:
  "\<exists>categories codes.
      CATEGORICAL_TYPES ''native_country'' = Some categories
      \<and> ''Holand-Netherlands'' \<in> set categories
      \<and> preprocess census_train = Inr census_train_encoded
      \<and> (''native_country'', Int8 codes) \<in> set (cols census_train_encoded)
      \<and> codes ! 1 = int (index_of categories ''Holand-Netherlands'')
      \<and> index_of categories ''Holand-Netherlands'' = 14"
proof -
  obtain categories where c: "CATEGORICAL_TYPES ''native_country'' = Some categories"
    and m: "''Holand-Netherlands'' \<in> set categories"
    and i: "index_of categories ''Holand-Netherlands'' = 14"
    by (simp add: CATEGORICAL_TYPES_def CATEGORICAL_TYPES_items_def)
  have col: "(''native_country'', Object [Str ''United-States'', Str ''Holand-Netherlands''])
               \<in> set (cols census_train)"
    by (simp add: census_train_def)
  show ?thesis
    using preprocess_codes_stable [OF preprocess_census_train col c _ _ m, of 1]
      c m i preprocess_census_train
    by auto
qed




section \<open>Properties of \<open>standardize\<close>\<close>

lemma fsum_Nil [simp]: "fsum [] = Fin 0"
  by (simp add: fsum_def)

lemma fsum_Cons [simp]: "fsum (v # vs) = fadd v (fsum vs)"
  by (simp add: fsum_def)

lemma fsub_Fin [simp]: "fsub (Fin a) (Fin b) = Fin (a - b)"
  by (simp add: fsub_def)

text \<open>
  The loop visits every label once. With distinct labels it applies the two updates to
  each \<open>float32\<close> column and leaves the other columns alone.
\<close>

lemma zscore_column_other:
  "dtype_name c \<noteq> ''float32'' \<Longrightarrow> zscore_column c = c"
  by (cases c) (simp_all add: zscore_column_def)

lemma zscore_column_Float32:
  "zscore_column (Float32 xs) = Float32 (div_std (sub_mean xs))"
  by (simp add: zscore_column_def)

lemma standardize_step_index: "index (standardize_step cd df) = index df"
  by (cases cd) (simp add: standardize_step_def update_column_def)

lemma standardize_step_float32:
  "cols (standardize_step (n, ''float32'') df)
   = map (\<lambda>(m, c). if m = n then (m, zscore_column c) else (m, c)) (cols df)"
  by (simp add: standardize_step_def update_column_def zscore_column_def
      comp_def case_prod_unfold)

lemma standardize_step_cols:
  assumes "\<forall>c. (n, c) \<in> set (cols df) \<longrightarrow> dtype_name c = d"
  shows "cols (standardize_step (n, d) df)
         = map (\<lambda>(m, c). if m = n then (m, zscore_column c) else (m, c)) (cols df)"
proof (cases "d = ''float32''")
  case True
  then show ?thesis by (simp add: standardize_step_float32)
next
  case False
  have "map (\<lambda>(m, c). if m = n then (m, zscore_column c) else (m, c)) (cols df) = cols df"
    using assms False by (intro map_idI) (auto simp: zscore_column_other)
  then show ?thesis using False by (simp add: standardize_step_def)
qed

lemma fold_standardize_step:
  assumes "distinct (map fst ds)"
    and "\<forall>(n, d) \<in> set ds. \<forall>c. (n, c) \<in> set (cols df) \<longrightarrow> dtype_name c = d"
  shows "cols (fold standardize_step ds df)
         = map (\<lambda>(m, c). if m \<in> fst ` set ds then (m, zscore_column c) else (m, c)) (cols df)
         \<and> index (fold standardize_step ds df) = index df"
  using assms
proof (induction ds arbitrary: df)
  case Nil
  then show ?case by (simp add: case_prod_unfold)
next
  case (Cons nd ds)
  obtain n d where nd: "nd = (n, d)" by (cases nd)
  let ?df1 = "standardize_step (n, d) df"
  have c1: "cols ?df1 = map (\<lambda>(m, c). if m = n then (m, zscore_column c) else (m, c)) (cols df)"
    using Cons.prems(2) nd by (intro standardize_step_cols) auto
  have n_new: "n \<notin> fst ` set ds" using Cons.prems(1) nd by auto
  have pre: "\<forall>(m, d') \<in> set ds. \<forall>c. (m, c) \<in> set (cols ?df1) \<longrightarrow> dtype_name c = d'"
  proof (clarify)
    fix m d' c assume md: "(m, d') \<in> set ds" and mc: "(m, c) \<in> set (cols ?df1)"
    have "m \<noteq> n" using md n_new by force
    then have "(m, c) \<in> set (cols df)" using mc unfolding c1 by (auto split: if_splits)
    then show "dtype_name c = d'" using Cons.prems(2) md by auto
  qed
  have d: "distinct (map fst ds)" using Cons.prems(1) by simp
  have ih: "cols (fold standardize_step ds ?df1)
         = map (\<lambda>(m, c). if m \<in> fst ` set ds then (m, zscore_column c) else (m, c)) (cols ?df1)"
    and ihi: "index (fold standardize_step ds ?df1) = index ?df1"
    using Cons.IH [OF d pre] by simp_all
  have "map (\<lambda>(m, c). if m \<in> fst ` set ds then (m, zscore_column c) else (m, c)) (cols ?df1)
        = map (\<lambda>(m, c). if m \<in> fst ` set (nd # ds) then (m, zscore_column c) else (m, c))
            (cols df)"
    unfolding c1 using n_new by (auto simp: nd)
  then show ?case
    using ih ihi by (simp add: nd standardize_step_index)
qed

lemma standardize_cols:
  assumes "distinct (columns_of df)"
  shows "cols (standardize df) = map (\<lambda>(n, c). (n, zscore_column c)) (cols df)"
    and "index (standardize df) = index df"
proof -
  have m: "map fst (df_dtypes df) = columns_of df"
    by (simp add: df_dtypes_def columns_of_def comp_def case_prod_unfold)
  have d: "distinct (map fst (df_dtypes df))" using assms m by simp
  have u: "c = c'" if "(n, c) \<in> set (cols df)" "(n, c') \<in> set (cols df)" for n c c'
    using assms that unfolding columns_of_def by (meson eq_key_imp_eq_value)
  have p: "\<forall>(n, d) \<in> set (df_dtypes df). \<forall>c. (n, c) \<in> set (cols df) \<longrightarrow> dtype_name c = d"
    using u by (auto simp: df_dtypes_def)
  have f: "fst ` set (df_dtypes df) = set (columns_of df)"
    using m by (metis set_map)
  have "cols (standardize df)
        = map (\<lambda>(m, c). if m \<in> fst ` set (df_dtypes df) then (m, zscore_column c) else (m, c))
            (cols df)"
    unfolding standardize_def using fold_standardize_step [OF d p] by simp
  also have "\<dots> = map (\<lambda>(n, c). (n, zscore_column c)) (cols df)"
    unfolding f by (rule map_cong) (auto simp: columns_of_def rev_image_eqI)
  finally show "cols (standardize df) = map (\<lambda>(n, c). (n, zscore_column c)) (cols df)" .
  show "index (standardize df) = index df"
    unfolding standardize_def using fold_standardize_step [OF d p] by simp
qed

lemma columns_of_standardize:
  "distinct (columns_of df) \<Longrightarrow> columns_of (standardize df) = columns_of df"
  by (simp add: columns_of_def standardize_cols(1) comp_def case_prod_unfold)

section \<open>Properties of \<open>load_data\<close>\<close>

lemma index_fold_standardize_step: "index (fold standardize_step ds df) = index df"
  by (induction ds arbitrary: df) (simp_all add: standardize_step_index)

lemma index_standardize: "index (standardize df) = index df"
  by (simp add: standardize_def index_fold_standardize_step)

lemma select_rows_True_False:
  "select_rows (replicate m True @ replicate k False) xs = take m xs"
proof (induction m arbitrary: xs)
  case 0
  have "filter fst (zip (replicate k False) xs) = []"
    by (auto simp: filter_empty_conv dest!: set_zip_leftD)
  then show ?case by (simp add: select_rows_def)
next
  case (Suc m)
  then show ?case by (cases xs) (simp_all add: select_rows_def)
qed

lemma select_rows_all: "select_rows (replicate k True) xs = take k xs"
proof (induction k arbitrary: xs)
  case 0
  then show ?case by (simp add: select_rows_def)
next
  case (Suc k)
  then show ?case by (cases xs) (simp_all add: select_rows_def)
qed

lemma select_rows_False_True:
  "select_rows (replicate m False @ replicate k True) xs = take k (drop m xs)"
proof (induction m arbitrary: xs)
  case 0
  then show ?case by (simp add: select_rows_all)
next
  case (Suc m)
  then show ?case by (cases xs) (simp_all add: select_rows_def)
qed

lemma keys_train:
  "map (\<lambda>i. fst i = ''train'') (index (pd_concat ''train'' a ''eval'' b)) = train_rows a b"
  by (simp add: pd_concat_def train_rows_def comp_def map_replicate_const)

lemma keys_eval:
  "map (\<lambda>i. fst i = ''eval'') (index (pd_concat ''train'' a ''eval'' b)) = eval_rows a b"
  by (simp add: pd_concat_def eval_rows_def comp_def map_replicate_const)

lemma index_train:
  "map snd (select_rows (train_rows a b) (index (pd_concat ''train'' a ''eval'' b))) = index a"
  by (simp add: train_rows_def select_rows_True_False pd_concat_def comp_def)

lemma index_eval:
  "map snd (select_rows (eval_rows a b) (index (pd_concat ''train'' a ''eval'' b))) = index b"
  by (simp add: eval_rows_def select_rows_False_True pd_concat_def comp_def)

lemma df_xs_train:
  assumes "index (all_x :: (string \<times> 'i) dataframe) = index (pd_concat ''train'' a ''eval'' b)"
  shows "df_xs ''train'' all_x =
     (if index a = [] then Inl (KeyError [''train''])
      else Inr \<lparr>index = index a,
                cols = map (\<lambda>(n, c). (n, column_rows (train_rows a b) c)) (cols all_x)\<rparr>)"
proof -
  have "True \<in> set (train_rows a b) \<longleftrightarrow> index a \<noteq> []"
    by (auto simp: train_rows_def)
  then show ?thesis
    unfolding df_xs_def Let_def assms keys_train index_train by simp
qed

lemma df_xs_eval:
  assumes "index (all_x :: (string \<times> 'i) dataframe) = index (pd_concat ''train'' a ''eval'' b)"
  shows "df_xs ''eval'' all_x =
     (if index b = [] then Inl (KeyError [''eval''])
      else Inr \<lparr>index = index b,
                cols = map (\<lambda>(n, c). (n, column_rows (eval_rows a b) c)) (cols all_x)\<rparr>)"
proof -
  have "True \<in> set (eval_rows a b) \<longleftrightarrow> index b \<noteq> []"
    by (auto simp: eval_rows_def)
  then show ?thesis
    unfolding df_xs_def Let_def assms keys_eval index_eval by simp
qed

lemma columns_of_pd_concat:
  "columns_of (pd_concat ka a kb b)
   = columns_of a @ filter (\<lambda>n. n \<notin> set (columns_of a)) (columns_of b)"
  by (simp add: pd_concat_def columns_of_def filter_map comp_def case_prod_unfold)

lemma distinct_pd_concat:
  "distinct (columns_of a) \<Longrightarrow> distinct (columns_of b)
   \<Longrightarrow> distinct (columns_of (pd_concat ka a kb b))"
  by (auto simp: columns_of_pd_concat)

lemma pd_concat_column:
  assumes "(n, c) \<in> set (cols a)" and "(n, c') \<in> set (cols b)"
    and "distinct (columns_of b)"
  shows "(n, concat_column c c') \<in> set (cols (pd_concat ka a kb b))"
proof -
  have "map_of (cols b) n = Some c'"
    using assms(2,3) by (simp add: columns_of_def)
  then have "(\<lambda>(n, c). (n, case map_of (cols b) n of
                             Some c' \<Rightarrow> concat_column c c'
                           | None \<Rightarrow> concat_column c (na_column c (length (index b))))) (n, c)
             = (n, concat_column c c')"
    by simp
  then show ?thesis
    unfolding pd_concat_def using assms(1) by (force simp: image_iff)
qed

text \<open>The pieces of a successful \<open>load_data\<close>.\<close>

lemma df_pop_Inr:
  assumes "df_pop label df = Inr (y, x)"
  shows "map_of (cols df) label = Some y"
    and "cols x = filter (\<lambda>(n, c). n \<noteq> label) (cols df)" and "index x = index df"
  using assms by (auto simp: df_pop_def split: option.splits)

lemma df_pop_ok:
  assumes "label \<in> set (columns_of df)"
  shows "\<exists>y. df_pop label df
              = Inr (y, df\<lparr>cols := filter (\<lambda>(n, c). n \<noteq> label) (cols df)\<rparr>)"
proof -
  have "map_of (cols df) label \<noteq> None"
    using assms by (simp add: columns_of_def map_of_eq_None_iff)
  then show ?thesis by (auto simp: df_pop_def)
qed

lemma columns_of_pop:
  "columns_of (df\<lparr>cols := filter (\<lambda>(n, c). n \<noteq> label) (cols df)\<rparr>)
   = filter (\<lambda>n. n \<noteq> label) (columns_of df)"
  by (simp add: columns_of_def filter_map comp_def case_prod_unfold)

lemma dtype_encoded:
  assumes "dtype_name c = ''object'' \<longrightarrow> CATEGORICAL_TYPES n \<noteq> None"
    and "col_length c \<noteq> 0"
  shows "dtype_name (encoded n c) \<in> {''int8'', ''float32'', ''float64''}"
proof (cases c)
  case (Object vs)
  then have "vs \<noteq> []" using assms(2) by simp
  then show ?thesis using assms(1) Object by (cases vs) (auto simp: encoded_def)
qed (simp_all add: encoded_def)

lemma astype_float32_encoded:
  assumes "dtype_name c \<in> {''int8'', ''float32'', ''float64''}"
  shows "\<exists>xs. astype_float32 c = Inr xs \<and> length xs = col_length c"
  using assms by (cases c) (simp_all add: of_ints_def)

lemma label_array_ok:
  assumes "dtype_name c \<in> {''int8'', ''float32'', ''float64''}"
  shows "\<exists>ys. label_array c = Inr ys \<and> length ys = col_length c"
  using astype_float32_encoded [OF assms] by (auto simp: label_array_def)

lemma label_array_encoded:
  assumes "dtype_name c = ''object'' \<longrightarrow> CATEGORICAL_TYPES n \<noteq> None"
  shows "\<exists>ys. label_array (encoded n c) = Inr ys \<and> length ys = col_length (encoded n c)"
proof (cases "col_length c = 0")
  case True
  then show ?thesis by (cases c) (simp_all add: encoded_def label_array_def of_ints_def)
next
  case False
  then show ?thesis using dtype_encoded [OF assms] label_array_ok by blast
qed

subsection \<open>The result of a successful call\<close>

lemma train_rows_cong:
  "index a' = index a \<Longrightarrow> index b' = index b \<Longrightarrow> train_rows a' b' = train_rows a b"
  by (simp add: train_rows_def)

lemma eval_rows_cong:
  "index a' = index a \<Longrightarrow> index b' = index b \<Longrightarrow> eval_rows a' b' = eval_rows a b"
  by (simp add: eval_rows_def)

lemma label_not_unused: "LABEL_COLUMN \<notin> set UNUSED_COLUMNS"
  by (simp add: LABEL_COLUMN_def UNUSED_COLUMNS_def)

lemma preprocess_column:
  assumes "preprocess df = Inr df'" and "(n, c) \<in> set (cols df)"
    and "n \<notin> set UNUSED_COLUMNS"
  shows "(n, encoded n c) \<in> set (cols df')"
proof -
  have "(n, c) \<in> set (filter (\<lambda>(n, c). n \<notin> set UNUSED_COLUMNS) (cols df))"
    using assms(2,3) by simp
  then show ?thesis
    unfolding preprocess_Inr(1) [OF assms(1)] encoded_def by force
qed

lemma preprocess_column_inv:
  assumes "preprocess df = Inr df'" and "(n, c') \<in> set (cols df')"
  shows "\<exists>c. (n, c) \<in> set (cols df) \<and> n \<notin> set UNUSED_COLUMNS \<and> c' = encoded n c"
  using assms(2) unfolding preprocess_Inr(1) [OF assms(1)] encoded_def by auto

lemma distinct_preprocess:
  assumes "preprocess df = Inr df'" and "distinct (columns_of df)"
  shows "distinct (columns_of df')"
  using assms(2) unfolding columns_of_preprocess [OF assms(1)] by simp

lemma load_data_result:
  assumes "loadable a" and "loadable b"
  shows "\<exists>a1 b1 ya yb ty ey.
      preprocess a = Inr a1 \<and> preprocess b = Inr b1
      \<and> map_of (cols a1) LABEL_COLUMN = Some ya \<and> map_of (cols b1) LABEL_COLUMN = Some yb
      \<and> label_array ya = Inr ty \<and> label_array yb = Inr ey
      \<and> length ty = col_length ya \<and> length ey = col_length yb
      \<and> load_data a b =
          Inr (\<lparr>index = index a,
                cols = map (\<lambda>(n, c). (n, column_rows (train_rows a b) (zscore_column c)))
                         (cols (combined a1 b1))\<rparr>,
               ty,
               \<lparr>index = index b,
                cols = map (\<lambda>(n, c). (n, column_rows (eval_rows a b) (zscore_column c)))
                         (cols (combined a1 b1))\<rparr>,
               ey)"
proof -
  have la: "wf_frame a" "set UNUSED_COLUMNS \<subseteq> set (columns_of a)" "declared (cols a)"
      "LABEL_COLUMN \<in> set (columns_of a)" "index a \<noteq> []"
    and lb: "wf_frame b" "set UNUSED_COLUMNS \<subseteq> set (columns_of b)" "declared (cols b)"
      "LABEL_COLUMN \<in> set (columns_of b)" "index b \<noteq> []"
    using assms by (simp_all add: loadable_def)
  obtain a1 where pa: "preprocess a = Inr a1" using preprocess_ok [OF la(2,3)] by blast
  obtain b1 where pb: "preprocess b = Inr b1" using preprocess_ok [OF lb(2,3)] by blast
  have da: "distinct (columns_of a1)" using pa la(1) by (auto simp: wf_frame_def intro: distinct_preprocess)
  have db: "distinct (columns_of b1)" using pb lb(1) by (auto simp: wf_frame_def intro: distinct_preprocess)
  have ia: "index a1 = index a" using preprocess_Inr(2) [OF pa] .
  have ib: "index b1 = index b" using preprocess_Inr(2) [OF pb] .
  have "LABEL_COLUMN \<in> set (columns_of a1)"
    unfolding columns_of_preprocess [OF pa] using la(4) label_not_unused by simp
  then obtain ya where popa: "df_pop LABEL_COLUMN a1 = Inr (ya, features a1)"
    using df_pop_ok unfolding features_def by blast
  have "LABEL_COLUMN \<in> set (columns_of b1)"
    unfolding columns_of_preprocess [OF pb] using lb(4) label_not_unused by simp
  then obtain yb where popb: "df_pop LABEL_COLUMN b1 = Inr (yb, features b1)"
    using df_pop_ok unfolding features_def by blast
  have mya: "map_of (cols a1) LABEL_COLUMN = Some ya" using df_pop_Inr(1) [OF popa] .
  have myb: "map_of (cols b1) LABEL_COLUMN = Some yb" using df_pop_Inr(1) [OF popb] .
  have lab: "\<exists>ys. label_array y = Inr ys \<and> length ys = col_length y"
    if p: "preprocess df = Inr df1" and d: "declared (cols df)"
      and m: "map_of (cols df1) LABEL_COLUMN = Some y"
    for df df1 :: "'a dataframe" and y
  proof -
    have "(LABEL_COLUMN, y) \<in> set (cols df1)" using m by (rule map_of_SomeD)
    then obtain c where c: "(LABEL_COLUMN, c) \<in> set (cols df)" "y = encoded LABEL_COLUMN c"
      using preprocess_column_inv [OF p] by blast
    have "dtype_name c = ''object'' \<longrightarrow> CATEGORICAL_TYPES LABEL_COLUMN \<noteq> None"
      using d c(1) label_not_unused by (auto simp: declared_def list_all_iff)
    then show ?thesis unfolding c(2) by (rule label_array_encoded)
  qed
  obtain ty where ty: "label_array ya = Inr ty" "length ty = col_length ya"
    using lab [OF pa la(3) mya] by blast
  obtain ey where ey: "label_array yb = Inr ey" "length ey = col_length yb"
    using lab [OF pb lb(3) myb] by blast
  let ?C = "combined a1 b1"
  have dfa: "distinct (columns_of (features a1))"
    unfolding features_def columns_of_pop using da by simp
  have dfb: "distinct (columns_of (features b1))"
    unfolding features_def columns_of_pop using db by simp
  have dC: "distinct (columns_of ?C)"
    unfolding combined_def using dfa dfb by (rule distinct_pd_concat)
  have sc: "cols (standardize ?C) = map (\<lambda>(n, c). (n, zscore_column c)) (cols ?C)"
    using dC by (rule standardize_cols(1))
  have si: "index (standardize ?C) = index (pd_concat ''train'' (features a1) ''eval'' (features b1))"
    by (simp add: index_standardize combined_def)
  have fa: "index (features a1) = index a" "index (features b1) = index b"
    using ia ib by (simp_all add: features_def)
  have tr: "train_rows (features a1) (features b1) = train_rows a b"
    using fa by (rule train_rows_cong)
  have er: "eval_rows (features a1) (features b1) = eval_rows a b"
    using fa by (rule eval_rows_cong)
  have xt: "df_xs ''train'' (standardize ?C)
      = Inr \<lparr>index = index a,
             cols = map (\<lambda>(n, c). (n, column_rows (train_rows a b) (zscore_column c))) (cols ?C)\<rparr>"
    unfolding df_xs_train [OF si] tr fa sc using la(5)
    by (simp add: comp_def case_prod_unfold)
  have xe: "df_xs ''eval'' (standardize ?C)
      = Inr \<lparr>index = index b,
             cols = map (\<lambda>(n, c). (n, column_rows (eval_rows a b) (zscore_column c))) (cols ?C)\<rparr>"
    unfolding df_xs_eval [OF si] er fa sc using lb(5)
    by (simp add: comp_def case_prod_unfold)
  have "load_data a b =
          Inr (\<lparr>index = index a,
                cols = map (\<lambda>(n, c). (n, column_rows (train_rows a b) (zscore_column c)))
                         (cols ?C)\<rparr>,
               ty,
               \<lparr>index = index b,
                cols = map (\<lambda>(n, c). (n, column_rows (eval_rows a b) (zscore_column c)))
                         (cols ?C)\<rparr>,
               ey)"
    using xt xe ty(1) ey(1) unfolding combined_def
    by (simp add: load_data_def pa pb popa popb Let_def)
  then show ?thesis using pa pb mya myb ty ey by blast
qed

subsection \<open>Columns and labels of the result\<close>

lemma wf_frame_column:
  assumes "wf_frame df" and "(n, c) \<in> set (cols df)"
  shows "col_length c = length (index df)"
  using assms by (auto simp: wf_frame_def list_all_iff)

lemma wf_frame_unique:
  assumes "wf_frame df" and "(n, c) \<in> set (cols df)" and "(n, c') \<in> set (cols df)"
  shows "c = c'"
  using assms unfolding wf_frame_def columns_of_def by (meson eq_key_imp_eq_value)

lemma features_column:
  assumes "preprocess df = Inr df1" and "(n, c) \<in> set (cols df)"
    and "n \<notin> set UNUSED_COLUMNS" and "n \<noteq> LABEL_COLUMN"
  shows "(n, encoded n c) \<in> set (cols (features df1))"
  using preprocess_column [OF assms(1-3)] assms(4) by (simp add: features_def)

lemma distinct_features:
  assumes "preprocess df = Inr df1" and "wf_frame df"
  shows "distinct (columns_of (features df1))"
proof -
  have "distinct (columns_of df1)"
    using assms by (auto simp: wf_frame_def intro: distinct_preprocess)
  then show ?thesis unfolding features_def columns_of_pop by simp
qed

lemma label_not_in_combined:
  "LABEL_COLUMN \<notin> set (columns_of (combined a1 b1))"
  unfolding combined_def columns_of_pd_concat features_def columns_of_pop by auto

lemma load_data_Inr:
  assumes "loadable a" and "loadable b" and "load_data a b = Inr (tx, ty, ex, ey)"
  obtains a1 b1 ya yb where "preprocess a = Inr a1" and "preprocess b = Inr b1"
    and "map_of (cols a1) LABEL_COLUMN = Some ya" and "map_of (cols b1) LABEL_COLUMN = Some yb"
    and "label_array ya = Inr ty" and "label_array yb = Inr ey"
    and "tx = \<lparr>index = index a,
               cols = map (\<lambda>(n, c). (n, column_rows (train_rows a b) (zscore_column c)))
                        (cols (combined a1 b1))\<rparr>"
    and "ex = \<lparr>index = index b,
               cols = map (\<lambda>(n, c). (n, column_rows (eval_rows a b) (zscore_column c)))
                        (cols (combined a1 b1))\<rparr>"
proof -
  from load_data_result [OF assms(1,2)]
  obtain a1 b1 ya yb ty' ey' where h: "preprocess a = Inr a1" "preprocess b = Inr b1"
    "map_of (cols a1) LABEL_COLUMN = Some ya" "map_of (cols b1) LABEL_COLUMN = Some yb"
    "label_array ya = Inr ty'" "label_array yb = Inr ey'"
    and r: "load_data a b =
          Inr (\<lparr>index = index a,
                cols = map (\<lambda>(n, c). (n, column_rows (train_rows a b) (zscore_column c)))
                         (cols (combined a1 b1))\<rparr>,
               ty',
               \<lparr>index = index b,
                cols = map (\<lambda>(n, c). (n, column_rows (eval_rows a b) (zscore_column c)))
                         (cols (combined a1 b1))\<rparr>,
               ey')"
    by (elim exE conjE)
  have e: "(tx, ty, ex, ey) =
          (\<lparr>index = index a,
                cols = map (\<lambda>(n, c). (n, column_rows (train_rows a b) (zscore_column c)))
                         (cols (combined a1 b1))\<rparr>,
               ty',
               \<lparr>index = index b,
                cols = map (\<lambda>(n, c). (n, column_rows (eval_rows a b) (zscore_column c)))
                         (cols (combined a1 b1))\<rparr>,
               ey')"
    using r unfolding assms(3) by (rule sum.inject(2) [THEN iffD1])
  have e1: "tx = \<lparr>index = index a,
               cols = map (\<lambda>(n, c). (n, column_rows (train_rows a b) (zscore_column c)))
                        (cols (combined a1 b1))\<rparr>"
    and e2: "ty = ty'"
    and e3: "ex = \<lparr>index = index b,
               cols = map (\<lambda>(n, c). (n, column_rows (eval_rows a b) (zscore_column c)))
                        (cols (combined a1 b1))\<rparr>"
    and e4: "ey = ey'"
    using e by (simp_all only: prod.inject)
  show thesis
    using h(1-4) h(5) [folded e2] h(6) [folded e4] e1 e3 by (rule that)
qed

lemma load_data_column:
  assumes "loadable a" and "loadable b"
    and "(n, ca) \<in> set (cols a)" and "(n, cb) \<in> set (cols b)"
    and "n \<notin> set UNUSED_COLUMNS" and "n \<noteq> LABEL_COLUMN"
    and "load_data a b = Inr (tx, ty, ex, ey)"
  shows "(n, column_rows (train_rows a b)
               (zscore_column (concat_column (encoded n ca) (encoded n cb)))) \<in> set (cols tx)"
    and "(n, column_rows (eval_rows a b)
               (zscore_column (concat_column (encoded n ca) (encoded n cb)))) \<in> set (cols ex)"
proof -
  from assms(1,2,7)
  obtain a1 b1 ya yb where pa: "preprocess a = Inr a1" and pb: "preprocess b = Inr b1"
    and ya: "map_of (cols a1) LABEL_COLUMN = Some ya"
    and yb: "map_of (cols b1) LABEL_COLUMN = Some yb"
    and ty: "label_array ya = Inr ty" and ey: "label_array yb = Inr ey"
    and tx: "tx = \<lparr>index = index a,
               cols = map (\<lambda>(n, c). (n, column_rows (train_rows a b) (zscore_column c)))
                        (cols (combined a1 b1))\<rparr>"
    and ex: "ex = \<lparr>index = index b,
               cols = map (\<lambda>(n, c). (n, column_rows (eval_rows a b) (zscore_column c)))
                        (cols (combined a1 b1))\<rparr>"
    by (rule load_data_Inr)
  have wb: "wf_frame b" using assms(2) by (simp add: loadable_def)
  have "(n, concat_column (encoded n ca) (encoded n cb)) \<in> set (cols (combined a1 b1))"
    unfolding combined_def
    using features_column [OF pa assms(3,5,6)] features_column [OF pb assms(4,5,6)]
      distinct_features [OF pb wb]
    by (rule pd_concat_column)
  then have m: "(n, column_rows rows (zscore_column (concat_column (encoded n ca) (encoded n cb))))
      \<in> set (map (\<lambda>(n, c). (n, column_rows rows (zscore_column c))) (cols (combined a1 b1)))"
    for rows
    by force
  show "(n, column_rows (train_rows a b)
               (zscore_column (concat_column (encoded n ca) (encoded n cb)))) \<in> set (cols tx)"
    unfolding tx using m [of "train_rows a b"] by simp
  show "(n, column_rows (eval_rows a b)
               (zscore_column (concat_column (encoded n ca) (encoded n cb)))) \<in> set (cols ex)"
    unfolding ex using m [of "eval_rows a b"] by simp
qed

lemma load_data_frames:
  assumes "loadable a" and "loadable b" and "load_data a b = Inr (tx, ty, ex, ey)"
  shows "index tx = index a" and "index ex = index b"
    and "LABEL_COLUMN \<notin> set (columns_of tx)" and "LABEL_COLUMN \<notin> set (columns_of ex)"
proof -
  from assms
  obtain a1 b1 ya yb where pa: "preprocess a = Inr a1" and pb: "preprocess b = Inr b1"
    and ya: "map_of (cols a1) LABEL_COLUMN = Some ya"
    and yb: "map_of (cols b1) LABEL_COLUMN = Some yb"
    and ty: "label_array ya = Inr ty" and ey: "label_array yb = Inr ey"
    and tx: "tx = \<lparr>index = index a,
               cols = map (\<lambda>(n, c). (n, column_rows (train_rows a b) (zscore_column c)))
                        (cols (combined a1 b1))\<rparr>"
    and ex: "ex = \<lparr>index = index b,
               cols = map (\<lambda>(n, c). (n, column_rows (eval_rows a b) (zscore_column c)))
                        (cols (combined a1 b1))\<rparr>"
    by (rule load_data_Inr)
  have c: "columns_of tx = columns_of (combined a1 b1)"
    "columns_of ex = columns_of (combined a1 b1)"
    unfolding tx ex by (simp_all add: columns_of_def comp_def case_prod_unfold)
  show "index tx = index a" "index ex = index b" unfolding tx ex by simp_all
  show "LABEL_COLUMN \<notin> set (columns_of tx)" "LABEL_COLUMN \<notin> set (columns_of ex)"
    unfolding c by (rule label_not_in_combined)+
qed

lemma load_data_labels:
  assumes "loadable a" and "loadable b"
    and "(LABEL_COLUMN, ca) \<in> set (cols a)" and "(LABEL_COLUMN, cb) \<in> set (cols b)"
    and "load_data a b = Inr (tx, ty, ex, ey)"
  shows "label_array (encoded LABEL_COLUMN ca) = Inr ty"
    and "label_array (encoded LABEL_COLUMN cb) = Inr ey"
proof -
  from assms(1,2,5)
  obtain a1 b1 ya yb where pa: "preprocess a = Inr a1" and pb: "preprocess b = Inr b1"
    and ya: "map_of (cols a1) LABEL_COLUMN = Some ya"
    and yb: "map_of (cols b1) LABEL_COLUMN = Some yb"
    and ty: "label_array ya = Inr ty" and ey: "label_array yb = Inr ey"
    and tx: "tx = \<lparr>index = index a,
               cols = map (\<lambda>(n, c). (n, column_rows (train_rows a b) (zscore_column c)))
                        (cols (combined a1 b1))\<rparr>"
    and ex: "ex = \<lparr>index = index b,
               cols = map (\<lambda>(n, c). (n, column_rows (eval_rows a b) (zscore_column c)))
                        (cols (combined a1 b1))\<rparr>"
    by (rule load_data_Inr)
  have wa: "wf_frame a" and wb: "wf_frame b" using assms(1,2) by (simp_all add: loadable_def)
  have "ya = encoded LABEL_COLUMN ca"
    using preprocess_column_inv [OF pa map_of_SomeD [OF ya]] wf_frame_unique [OF wa assms(3)]
    by auto
  then show "label_array (encoded LABEL_COLUMN ca) = Inr ty" using ty by simp
  have "yb = encoded LABEL_COLUMN cb"
    using preprocess_column_inv [OF pb map_of_SomeD [OF yb]] wf_frame_unique [OF wb assms(4)]
    by auto
  then show "label_array (encoded LABEL_COLUMN cb) = Inr ey" using ey by simp
qed

lemma label_code_value:
  "CATEGORICAL_TYPES LABEL_COLUMN = Some categories \<Longrightarrow>
   Fin (of_int (cat_code categories (astype_category categories v))) = Fin (label_value v)"
  by (cases v)
     (auto simp: CATEGORICAL_TYPES_def CATEGORICAL_TYPES_items_def LABEL_COLUMN_def)

lemma label_array_object:
  "label_array (encoded LABEL_COLUMN (Object vs)) = Inr (map (\<lambda>v. [Fin (label_value v)]) vs)"
proof (cases vs)
  case Nil
  then show ?thesis by (simp add: encoded_def label_array_def)
next
  case (Cons v vs')
  obtain categories where c: "CATEGORICAL_TYPES LABEL_COLUMN = Some categories"
    by (simp add: CATEGORICAL_TYPES_def CATEGORICAL_TYPES_items_def LABEL_COLUMN_def)
  show ?thesis
    unfolding Cons
    by (simp add: encoded_def c label_array_def of_ints_def comp_def label_code_value [OF c])
qed

lemma column_rows_train:
  "length xs = length (index a) \<Longrightarrow> select_rows (train_rows a b) (xs @ ys) = xs"
  by (simp add: train_rows_def select_rows_True_False)

lemma column_rows_eval:
  "length xs = length (index a) \<Longrightarrow> length ys = length (index b)
   \<Longrightarrow> select_rows (eval_rows a b) (xs @ ys) = ys"
  by (simp add: eval_rows_def select_rows_False_True)

lemma concat_Float64:
  assumes "dtype_name c \<in> {''int8'', ''float32'', ''float64''}"
  shows "\<exists>ys. concat_column (Float64 xs) c = Float64 (xs @ ys)"
  using assms by (cases c) simp_all

section \<open>The pipeline on concrete and arbitrary frames\<close>

subsection \<open>The census frames\<close>

lemma loadable_census_train: "loadable census_train"
  by (simp add: loadable_def wf_frame_def columns_of_def census_train_def declared_def
      UNUSED_COLUMNS_def LABEL_COLUMN_def CATEGORICAL_TYPES_def CATEGORICAL_TYPES_items_def)

lemma loadable_census_eval: "loadable census_eval"
  by (simp add: loadable_def wf_frame_def columns_of_def census_eval_def declared_def
      UNUSED_COLUMNS_def LABEL_COLUMN_def CATEGORICAL_TYPES_def CATEGORICAL_TYPES_items_def)

lemma loadable_census_train_na: "loadable census_train_na"
  by (simp add: loadable_def wf_frame_def columns_of_def census_train_na_def declared_def
      UNUSED_COLUMNS_def LABEL_COLUMN_def CATEGORICAL_TYPES_def CATEGORICAL_TYPES_items_def)

lemma load_data_ok:
  assumes "loadable a" and "loadable b"
  shows "\<exists>tx ty ex ey. load_data a b = Inr (tx, ty, ex, ey)"
  using load_data_result [OF assms] by blast

subsection \<open>A column without variance\<close>

text \<open>
  Claim C5 asks that a \<open>float32\<close> column whose standard deviation is exactly zero be
  reported as an error and never yield NaN. The code does neither: with \<open>capital_loss\<close>
  zero in every row of both census frames \<open>load_data\<close> returns, and the \<open>capital_loss\<close>
  column of the training features is NaN in both rows. Every intermediate value is 0,
  so single precision computes the same.
\<close>

theorem load_data_zero_variance:
  "(''capital_loss'', Float32 [NaN, NaN])
     \<in> set (train_x_of (load_data census_train census_eval))"
proof -
  obtain tx ty ex ey where r: "load_data census_train census_eval = Inr (tx, ty, ex, ey)"
    using load_data_ok [OF loadable_census_train loadable_census_eval] by blast
  have ca: "(''capital_loss'', Int64 [0, 0]) \<in> set (cols census_train)"
    by (simp add: census_train_def)
  have cb: "(''capital_loss'', Int64 [0, 0]) \<in> set (cols census_eval)"
    by (simp add: census_eval_def)
  have n: "''capital_loss'' \<notin> set UNUSED_COLUMNS" "''capital_loss'' \<noteq> LABEL_COLUMN"
    by (simp_all add: UNUSED_COLUMNS_def LABEL_COLUMN_def)
  have m: "series_mean [Fin 0, Fin 0, Fin 0, Fin 0] = Fin 0"
    by (simp add: series_mean_def notna_def)
  have s: "series_std [Fin 0, Fin 0, Fin 0, Fin 0] = Fin 0"
    by (simp add: series_std_def notna_def)
  have "sub_mean [Fin 0, Fin 0, Fin 0, Fin 0] = [Fin 0, Fin 0, Fin 0, Fin 0]"
    by (simp add: sub_mean_def m)
  then have "div_std (sub_mean [Fin 0, Fin 0, Fin 0, Fin 0]) = [NaN, NaN, NaN, NaN]"
    by (simp add: div_std_def s)
  then have z: "zscore_column (concat_column (encoded ''capital_loss'' (Int64 [0, 0]))
                                       (encoded ''capital_loss'' (Int64 [0, 0])))
           = Float32 [NaN, NaN, NaN, NaN]"
    by (simp add: encoded_def zscore_column_Float32 of_ints_def)
  have t: "train_rows census_train census_eval = [True, True, False, False]"
    by (simp add: train_rows_def census_train_def census_eval_def numeral_2_eq_2)
  have "(''capital_loss'', column_rows [True, True, False, False] (Float32 [NaN, NaN, NaN, NaN]))
          \<in> set (cols tx)"
    using load_data_column(1) [OF loadable_census_train loadable_census_eval ca cb n r]
    unfolding z t .
  then show ?thesis by (simp add: r train_x_of_def select_rows_def)
qed

subsection \<open>Columns through the pipeline\<close>

lemma standardize_other_columns:
  assumes "distinct (columns_of df)" and "k < length (cols df)"
    and "dtype_name (snd (cols df ! k)) \<noteq> ''float32''"
  shows "cols (standardize df) ! k = cols df ! k"
proof -
  obtain n c where nc: "cols df ! k = (n, c)" by (cases "cols df ! k")
  have "cols (standardize df) ! k = (n, zscore_column c)"
    unfolding standardize_cols(1) [OF assms(1)] using assms(2) nc by simp
  then show ?thesis using assms(3) nc by (simp add: zscore_column_other)
qed

lemma col_length_encoded: "col_length (encoded n c) = col_length c"
proof (cases c)
  case (Object vs)
  then show ?thesis by (cases vs) (simp_all add: encoded_def split: option.splits)
qed (simp_all add: encoded_def)

lemma dtype_encoded_loadable:
  assumes "loadable b" and "(n, cb) \<in> set (cols b)" and "n \<notin> set UNUSED_COLUMNS"
  shows "dtype_name (encoded n cb) \<in> {''int8'', ''float32'', ''float64''}"
proof -
  have "dtype_name cb = ''object'' \<longrightarrow> CATEGORICAL_TYPES n \<noteq> None"
    using assms by (auto simp: loadable_def declared_def list_all_iff)
  moreover have "col_length cb \<noteq> 0"
    using wf_frame_column [of b n cb] assms(1,2) by (simp add: loadable_def)
  ultimately show ?thesis by (rule dtype_encoded)
qed

lemma concat_before_Float64:
  assumes "dtype_name c \<in> {''int8'', ''float32'', ''float64''}"
  shows "\<exists>xs. concat_column c (Float64 ys) = Float64 (xs @ ys) \<and> length xs = col_length c"
  using assms by (cases c) (simp_all add: of_ints_def)

lemma load_data_float64_column_eval:
  assumes "loadable a" and "loadable b"
    and "(n, ca) \<in> set (cols a)" and "(n, Float64 ys) \<in> set (cols b)"
    and "n \<notin> set UNUSED_COLUMNS" and "n \<noteq> LABEL_COLUMN"
    and "load_data a b = Inr (tx, ty, ex, ey)"
  shows "(n, Float64 ys) \<in> set (cols ex)"
proof -
  obtain xs where c: "concat_column (encoded n ca) (Float64 ys) = Float64 (xs @ ys)"
    and lx: "length xs = col_length (encoded n ca)"
    using concat_before_Float64 [OF dtype_encoded_loadable [OF assms(1,3,5)]] by blast
  have la: "length xs = length (index a)"
    using wf_frame_column [of a n ca] assms(1,3) lx
    by (simp add: loadable_def col_length_encoded)
  have lb: "length ys = length (index b)"
    using wf_frame_column [of b n "Float64 ys"] assms(2,4) by (simp add: loadable_def)
  have "(n, column_rows (eval_rows a b)
               (zscore_column (concat_column (encoded n ca) (encoded n (Float64 ys)))))
          \<in> set (cols ex)"
    using assms by (rule load_data_column(2))
  moreover have "encoded n (Float64 ys) = Float64 ys" by (simp add: encoded_def)
  ultimately have "(n, column_rows (eval_rows a b) (zscore_column (Float64 (xs @ ys))))
          \<in> set (cols ex)"
    by (simp only: c)
  then show ?thesis
    by (simp add: zscore_column_other column_rows_eval [OF la lb])
qed

lemma load_data_float64_column:
  assumes "loadable a" and "loadable b"
    and "(n, Float64 xs) \<in> set (cols a)" and "(n, cb) \<in> set (cols b)"
    and "n \<notin> set UNUSED_COLUMNS" and "n \<noteq> LABEL_COLUMN"
    and "load_data a b = Inr (tx, ty, ex, ey)"
  shows "(n, Float64 xs) \<in> set (cols tx)"
proof -
  obtain ys where c: "concat_column (Float64 xs) (encoded n cb) = Float64 (xs @ ys)"
    using concat_Float64 [OF dtype_encoded_loadable [OF assms(2,4,5)]] by blast
  have l: "length xs = length (index a)"
    using wf_frame_column [of a n "Float64 xs"] assms(1,3) by (simp add: loadable_def)
  have "(n, column_rows (train_rows a b)
               (zscore_column (concat_column (encoded n (Float64 xs)) (encoded n cb))))
          \<in> set (cols tx)"
    using assms by (rule load_data_column(1))
  moreover have "encoded n (Float64 xs) = Float64 xs" by (simp add: encoded_def)
  ultimately have "(n, column_rows (train_rows a b) (zscore_column (Float64 (xs @ ys))))
          \<in> set (cols tx)"
    by (simp only: c)
  then show ?thesis
    by (simp add: zscore_column_other column_rows_train [OF l])
qed

lemma load_data_category_column:
  assumes "loadable a" and "loadable b"
    and "(n, Object va) \<in> set (cols a)" and "(n, Object vb) \<in> set (cols b)"
    and "CATEGORICAL_TYPES n = Some categories" and "n \<noteq> LABEL_COLUMN"
    and "load_data a b = Inr (tx, ty, ex, ey)"
  shows "(n, Int8 (map (\<lambda>v. cat_code categories (astype_category categories v)) va))
           \<in> set (cols tx)"
    and "(n, Int8 (map (\<lambda>v. cat_code categories (astype_category categories v)) vb))
           \<in> set (cols ex)"
proof -
  have u: "n \<notin> set UNUSED_COLUMNS" using assms(5) by (rule declared_label)
  have la: "length (map (\<lambda>v. cat_code categories (astype_category categories v)) va)
            = length (index a)"
    using wf_frame_column [of a n "Object va"] assms(1,3) by (simp add: loadable_def)
  have lb: "length (map (\<lambda>v. cat_code categories (astype_category categories v)) vb)
            = length (index b)"
    using wf_frame_column [of b n "Object vb"] assms(2,4) by (simp add: loadable_def)
  let ?ca = "map (\<lambda>v. cat_code categories (astype_category categories v)) va"
  let ?cb = "map (\<lambda>v. cat_code categories (astype_category categories v)) vb"
  have "va \<noteq> []" "vb \<noteq> []"
    using la lb assms(1,2) by (auto simp: loadable_def)
  then have "encoded n (Object va) = Int8 ?ca" "encoded n (Object vb) = Int8 ?cb"
    using assms(5) by (simp_all add: encoded_def encode_column_Object comp_def)
  then have z: "zscore_column (concat_column (encoded n (Object va)) (encoded n (Object vb)))
           = Int8 (?ca @ ?cb)"
    by (simp add: zscore_column_other)
  have "(n, column_rows (train_rows a b) (Int8 (?ca @ ?cb))) \<in> set (cols tx)"
    using load_data_column(1) [OF assms(1-4) u assms(6,7)] unfolding z .
  then show "(n, Int8 ?ca) \<in> set (cols tx)"
    using column_rows_train [OF la, of b ?cb] by simp
  have "(n, column_rows (eval_rows a b) (Int8 (?ca @ ?cb))) \<in> set (cols ex)"
    using load_data_column(2) [OF assms(1-4) u assms(6,7)] unfolding z .
  then show "(n, Int8 ?cb) \<in> set (cols ex)"
    using column_rows_eval [OF la lb] by simp
qed

lemma load_data_int64_column:
  assumes "loadable a" and "loadable b"
    and "(n, Int64 xa) \<in> set (cols a)" and "(n, Int64 xb) \<in> set (cols b)"
    and "n \<notin> set UNUSED_COLUMNS" and "n \<noteq> LABEL_COLUMN"
    and "load_data a b = Inr (tx, ty, ex, ey)"
  shows "(n, Float32 (map (\<lambda>v. fdiv (fsub v (series_mean (of_ints (xa @ xb))))
                                  (series_std (sub_mean (of_ints (xa @ xb)))))
                        (of_ints xa))) \<in> set (cols tx)"
    and "(n, Float32 (map (\<lambda>v. fdiv (fsub v (series_mean (of_ints (xa @ xb))))
                                  (series_std (sub_mean (of_ints (xa @ xb)))))
                        (of_ints xb))) \<in> set (cols ex)"
proof -
  let ?p = "of_ints (xa @ xb)"
  let ?z = "\<lambda>v. fdiv (fsub v (series_mean ?p)) (series_std (sub_mean ?p))"
  have la: "length (map ?z (of_ints xa)) = length (index a)"
    using wf_frame_column [of a n "Int64 xa"] assms(1,3) by (simp add: loadable_def of_ints_def)
  have lb: "length (map ?z (of_ints xb)) = length (index b)"
    using wf_frame_column [of b n "Int64 xb"] assms(2,4) by (simp add: loadable_def of_ints_def)
  have p: "of_ints xa @ of_ints xb = ?p" by (simp add: of_ints_def)
  have "map (\<lambda>v. fdiv v t) (sub_mean ?p) = map (\<lambda>v. fdiv (fsub v (series_mean ?p)) t) ?p"
    for t
    by (simp add: sub_mean_def)
  then have "div_std (sub_mean ?p) = map ?z ?p"
    unfolding div_std_def .
  then have "zscore_column (Float32 ?p) = Float32 (map ?z (of_ints xa) @ map ?z (of_ints xb))"
    unfolding zscore_column_Float32 p [symmetric] by simp
  moreover have "concat_column (encoded n (Int64 xa)) (encoded n (Int64 xb)) = Float32 ?p"
    by (simp add: encoded_def of_ints_def)
  ultimately have z: "zscore_column (concat_column (encoded n (Int64 xa)) (encoded n (Int64 xb)))
           = Float32 (map ?z (of_ints xa) @ map ?z (of_ints xb))"
    by simp
  have "(n, column_rows (train_rows a b) (Float32 (map ?z (of_ints xa) @ map ?z (of_ints xb))))
          \<in> set (cols tx)"
    using load_data_column(1) [OF assms] unfolding z .
  then show "(n, Float32 (map ?z (of_ints xa))) \<in> set (cols tx)"
    using column_rows_train [OF la] by simp
  have "(n, column_rows (eval_rows a b) (Float32 (map ?z (of_ints xa) @ map ?z (of_ints xb))))
          \<in> set (cols ex)"
    using load_data_column(2) [OF assms] unfolding z .
  then show "(n, Float32 (map ?z (of_ints xb))) \<in> set (cols ex)"
    using column_rows_eval [OF la lb] by simp
qed

subsection \<open>Frame of standardize and labels of load_data\<close>

text \<open>
  Claim C10, as amended. \<open>standardize\<close> keeps the rows and the labels and leaves every
  column that is not \<open>float32\<close> as it is. A numeric column that the parser made
  \<open>float64\<close> in either file is left as it is by \<open>preprocess\<close> and reaches the features
  that \<open>load_data\<close> returns for that file with the values it had. A categorical column
  that was parsed as text in both files reaches the features of both as its \<open>int8\<close>
  category codes.
\<close>

theorem standardize_frame_effect:
  "(distinct (columns_of df) \<longrightarrow>
      index (standardize df) = index df
      \<and> columns_of (standardize df) = columns_of df
      \<and> (\<forall>k < length (cols df).
            dtype_name (snd (cols df ! k)) \<noteq> ''float32''
            \<longrightarrow> cols (standardize df) ! k = cols df ! k))
   \<and> (loadable a \<and> loadable b \<and> (n, Float64 xs) \<in> set (cols a) \<and> (n, cb) \<in> set (cols b)
       \<and> n \<notin> set UNUSED_COLUMNS \<and> n \<noteq> LABEL_COLUMN \<longrightarrow>
      (\<exists>a1 tx ty ex ey. preprocess a = Inr a1 \<and> (n, Float64 xs) \<in> set (cols a1)
          \<and> load_data a b = Inr (tx, ty, ex, ey) \<and> (n, Float64 xs) \<in> set (cols tx)))
   \<and> (loadable a \<and> loadable b \<and> (l, ca) \<in> set (cols a) \<and> (l, Float64 ys) \<in> set (cols b)
       \<and> l \<notin> set UNUSED_COLUMNS \<and> l \<noteq> LABEL_COLUMN \<longrightarrow>
      (\<exists>b1 tx ty ex ey. preprocess b = Inr b1 \<and> (l, Float64 ys) \<in> set (cols b1)
          \<and> load_data a b = Inr (tx, ty, ex, ey) \<and> (l, Float64 ys) \<in> set (cols ex)))
   \<and> (loadable a \<and> loadable b \<and> (m, Object va) \<in> set (cols a) \<and> (m, Object vb) \<in> set (cols b)
       \<and> CATEGORICAL_TYPES m = Some categories \<and> m \<noteq> LABEL_COLUMN \<longrightarrow>
      (\<exists>tx ty ex ey. load_data a b = Inr (tx, ty, ex, ey)
          \<and> (m, Int8 (map (\<lambda>v. cat_code categories (astype_category categories v)) va))
               \<in> set (cols tx)
          \<and> (m, Int8 (map (\<lambda>v. cat_code categories (astype_category categories v)) vb))
               \<in> set (cols ex)))"
proof (intro conjI impI)
  assume "distinct (columns_of df)"
  then show "index (standardize df) = index df"
    and "columns_of (standardize df) = columns_of df"
    and "\<forall>k < length (cols df).
            dtype_name (snd (cols df ! k)) \<noteq> ''float32''
            \<longrightarrow> cols (standardize df) ! k = cols df ! k"
    by (simp_all add: index_standardize columns_of_standardize standardize_other_columns)
next
  assume h: "loadable a \<and> loadable b \<and> (n, Float64 xs) \<in> set (cols a) \<and> (n, cb) \<in> set (cols b)
       \<and> n \<notin> set UNUSED_COLUMNS \<and> n \<noteq> LABEL_COLUMN"
  then have la: "loadable a" and lb: "loadable b" and ca: "(n, Float64 xs) \<in> set (cols a)"
    and cb: "(n, cb) \<in> set (cols b)" and nu: "n \<notin> set UNUSED_COLUMNS"
    and nl: "n \<noteq> LABEL_COLUMN"
    by simp_all
  obtain tx ty ex ey where r: "load_data a b = Inr (tx, ty, ex, ey)"
    using load_data_ok [OF la lb] by blast
  obtain a1 where pa: "preprocess a = Inr a1"
    using r by (auto simp: load_data_def split: sum.splits)
  have "(n, encoded n (Float64 xs)) \<in> set (cols a1)"
    using pa ca nu by (rule preprocess_column)
  then have "(n, Float64 xs) \<in> set (cols a1)" by (simp add: encoded_def)
  moreover have "(n, Float64 xs) \<in> set (cols tx)"
    using la lb ca cb nu nl r by (rule load_data_float64_column)
  ultimately show "\<exists>a1 tx ty ex ey. preprocess a = Inr a1 \<and> (n, Float64 xs) \<in> set (cols a1)
          \<and> load_data a b = Inr (tx, ty, ex, ey) \<and> (n, Float64 xs) \<in> set (cols tx)"
    using pa r by blast
next
  assume h: "loadable a \<and> loadable b \<and> (l, ca) \<in> set (cols a) \<and> (l, Float64 ys) \<in> set (cols b)
       \<and> l \<notin> set UNUSED_COLUMNS \<and> l \<noteq> LABEL_COLUMN"
  then have la: "loadable a" and lb: "loadable b" and ca: "(l, ca) \<in> set (cols a)"
    and cb: "(l, Float64 ys) \<in> set (cols b)" and nu: "l \<notin> set UNUSED_COLUMNS"
    and nl: "l \<noteq> LABEL_COLUMN"
    by simp_all
  obtain tx ty ex ey where r: "load_data a b = Inr (tx, ty, ex, ey)"
    using load_data_ok [OF la lb] by blast
  obtain b1 where pb: "preprocess b = Inr b1"
    using r by (auto simp: load_data_def split: sum.splits)
  have "(l, encoded l (Float64 ys)) \<in> set (cols b1)"
    using pb cb nu by (rule preprocess_column)
  then have "(l, Float64 ys) \<in> set (cols b1)" by (simp add: encoded_def)
  moreover have "(l, Float64 ys) \<in> set (cols ex)"
    using la lb ca cb nu nl r by (rule load_data_float64_column_eval)
  ultimately show "\<exists>b1 tx ty ex ey. preprocess b = Inr b1 \<and> (l, Float64 ys) \<in> set (cols b1)
          \<and> load_data a b = Inr (tx, ty, ex, ey) \<and> (l, Float64 ys) \<in> set (cols ex)"
    using pb r by blast
next
  assume h: "loadable a \<and> loadable b \<and> (m, Object va) \<in> set (cols a)
       \<and> (m, Object vb) \<in> set (cols b)
       \<and> CATEGORICAL_TYPES m = Some categories \<and> m \<noteq> LABEL_COLUMN"
  then have la: "loadable a" and lb: "loadable b" and ca: "(m, Object va) \<in> set (cols a)"
    and cb: "(m, Object vb) \<in> set (cols b)" and ct: "CATEGORICAL_TYPES m = Some categories"
    and nl: "m \<noteq> LABEL_COLUMN"
    by simp_all
  obtain tx ty ex ey where r: "load_data a b = Inr (tx, ty, ex, ey)"
    using load_data_ok [OF la lb] by blast
  have "(m, Int8 (map (\<lambda>v. cat_code categories (astype_category categories v)) va))
               \<in> set (cols tx)"
    and "(m, Int8 (map (\<lambda>v. cat_code categories (astype_category categories v)) vb))
               \<in> set (cols ex)"
    using la lb ca cb ct nl r by (rule load_data_category_column)+
  then show "\<exists>tx ty ex ey. load_data a b = Inr (tx, ty, ex, ey)
          \<and> (m, Int8 (map (\<lambda>v. cat_code categories (astype_category categories v)) va))
               \<in> set (cols tx)
          \<and> (m, Int8 (map (\<lambda>v. cat_code categories (astype_category categories v)) vb))
               \<in> set (cols ex)"
    using r by blast
qed

text \<open>
  An age column with a missing value stays \<open>[39, NaN]\<close> through \<open>load_data\<close>, as a column
  of the training file and as a column of the evaluation file.
\<close>

theorem standardize_frame_effect_witness:
  "loadable census_train_na \<and> loadable census_eval
   \<and> (''age'', Float64 [Fin 39, NaN]) \<in> set (cols census_train_na)
   \<and> (''age'', Int64 [25, 38]) \<in> set (cols census_eval)
   \<and> (\<exists>tx ty ex ey. load_data census_train_na census_eval = Inr (tx, ty, ex, ey)
         \<and> (''age'', Float64 [Fin 39, NaN]) \<in> set (cols tx))
   \<and> (\<exists>tx ty ex ey. load_data census_eval census_train_na = Inr (tx, ty, ex, ey)
         \<and> (''age'', Float64 [Fin 39, NaN]) \<in> set (cols ex))"
proof -
  have h: "(''age'', Float64 [Fin 39, NaN]) \<in> set (cols census_train_na)"
    "(''age'', Int64 [25, 38]) \<in> set (cols census_eval)"
    "''age'' \<notin> set UNUSED_COLUMNS" "''age'' \<noteq> LABEL_COLUMN"
    by (simp_all add: census_train_na_def census_eval_def UNUSED_COLUMNS_def LABEL_COLUMN_def)
  have h1: "loadable census_train_na \<and> loadable census_eval
       \<and> (''age'', Float64 [Fin 39, NaN]) \<in> set (cols census_train_na)
       \<and> (''age'', Int64 [25, 38]) \<in> set (cols census_eval)
       \<and> ''age'' \<notin> set UNUSED_COLUMNS \<and> ''age'' \<noteq> LABEL_COLUMN"
    using h loadable_census_train_na loadable_census_eval by simp
  have h2: "loadable census_eval \<and> loadable census_train_na
       \<and> (''age'', Int64 [25, 38]) \<in> set (cols census_eval)
       \<and> (''age'', Float64 [Fin 39, NaN]) \<in> set (cols census_train_na)
       \<and> ''age'' \<notin> set UNUSED_COLUMNS \<and> ''age'' \<noteq> LABEL_COLUMN"
    using h loadable_census_train_na loadable_census_eval by simp
  have "\<exists>a1 tx ty ex ey. preprocess census_train_na = Inr a1
          \<and> (''age'', Float64 [Fin 39, NaN]) \<in> set (cols a1)
          \<and> load_data census_train_na census_eval = Inr (tx, ty, ex, ey)
          \<and> (''age'', Float64 [Fin 39, NaN]) \<in> set (cols tx)"
    using standardize_frame_effect
      [where a = census_train_na and b = census_eval and n = "''age''"
         and xs = "[Fin 39, NaN]" and cb = "Int64 [25, 38]",
       THEN conjunct2, THEN conjunct1, THEN mp, OF h1] .
  then have one: "\<exists>tx ty ex ey. load_data census_train_na census_eval = Inr (tx, ty, ex, ey)
         \<and> (''age'', Float64 [Fin 39, NaN]) \<in> set (cols tx)"
    by (elim exE conjE) (intro exI conjI)
  have "\<exists>b1 tx ty ex ey. preprocess census_train_na = Inr b1
          \<and> (''age'', Float64 [Fin 39, NaN]) \<in> set (cols b1)
          \<and> load_data census_eval census_train_na = Inr (tx, ty, ex, ey)
          \<and> (''age'', Float64 [Fin 39, NaN]) \<in> set (cols ex)"
    using standardize_frame_effect
      [where a = census_eval and b = census_train_na and l = "''age''"
         and ys = "[Fin 39, NaN]" and ca = "Int64 [25, 38]",
       THEN conjunct2, THEN conjunct2, THEN conjunct1, THEN mp, OF h2] .
  then have two: "\<exists>tx ty ex ey. load_data census_eval census_train_na = Inr (tx, ty, ex, ey)
         \<and> (''age'', Float64 [Fin 39, NaN]) \<in> set (cols ex)"
    by (elim exE conjE) (intro exI conjI)
  show ?thesis
    using one two h1 by (intro conjI) simp_all
qed

lemma loadable_census_train_workclass_numeric: "loadable census_train_workclass_numeric"
  by (simp add: loadable_def wf_frame_def columns_of_def census_train_workclass_numeric_def
      declared_def UNUSED_COLUMNS_def LABEL_COLUMN_def CATEGORICAL_TYPES_def
      CATEGORICAL_TYPES_items_def)

text \<open>
  Claim C10 as stated fails for category codes: when the work class is a number in every
  row of the training file and text in the evaluation file, the \<open>float32\<close> training
  column \<open>[1, 3]\<close> and the \<open>int8\<close> evaluation codes \<open>[3, 3]\<close> are concatenated into the
  \<open>float32\<close> column \<open>[1, 3, 3, 3]\<close>, which \<open>standardize\<close> scales: its mean is 5/2 and
  its standard deviation 1, and the evaluation features hold \<open>[1/2, 1/2]\<close> in place of the
  codes. Every intermediate value is a small dyadic fraction, so single precision
  computes the same.
\<close>

theorem load_data_codes_scaled_counterexample:
  "(''workclass'', Float32 [Fin (1 / 2), Fin (1 / 2)])
     \<in> set (eval_x_of (load_data census_train_workclass_numeric census_eval))"
proof -
  obtain tx ty ex ey
    where r: "load_data census_train_workclass_numeric census_eval = Inr (tx, ty, ex, ey)"
    using load_data_ok [OF loadable_census_train_workclass_numeric loadable_census_eval]
    by blast
  have ca: "(''workclass'', Int64 [1, 3]) \<in> set (cols census_train_workclass_numeric)"
    by (simp add: census_train_workclass_numeric_def)
  have cb: "(''workclass'', Object [Str ''Private'', Str ''Private'']) \<in> set (cols census_eval)"
    by (simp add: census_eval_def)
  have n: "''workclass'' \<notin> set UNUSED_COLUMNS" "''workclass'' \<noteq> LABEL_COLUMN"
    by (simp_all add: UNUSED_COLUMNS_def LABEL_COLUMN_def)
  have e: "encoded ''workclass'' (Int64 [1, 3]) = Float32 [Fin 1, Fin 3]"
    "encoded ''workclass'' (Object [Str ''Private'', Str ''Private'']) = Int8 [3, 3]"
    by (simp_all add: encoded_def CATEGORICAL_TYPES_def CATEGORICAL_TYPES_items_def)
  have c: "concat_column (Float32 [Fin 1, Fin 3]) (Int8 [3, 3])
           = Float32 [Fin 1, Fin 3, Fin 3, Fin 3]"
    by (simp add: of_ints_def)
  have m: "series_mean [Fin 1, Fin 3, Fin 3, Fin 3] = Fin (5 / 2)"
    by (simp add: series_mean_def notna_def)
  have sm: "sub_mean [Fin 1, Fin 3, Fin 3, Fin 3]
            = [Fin (- (3 / 2)), Fin (1 / 2), Fin (1 / 2), Fin (1 / 2)]"
    by (simp add: sub_mean_def m)
  have sd: "series_std [Fin (- (3 / 2)), Fin (1 / 2), Fin (1 / 2), Fin (1 / 2)] = Fin 1"
    by (simp add: series_std_def notna_def)
  have "div_std (sub_mean [Fin 1, Fin 3, Fin 3, Fin 3])
        = [Fin (- (3 / 2)), Fin (1 / 2), Fin (1 / 2), Fin (1 / 2)]"
    unfolding sm by (simp add: div_std_def sd)
  then have z: "zscore_column (concat_column (encoded ''workclass'' (Int64 [1, 3]))
                   (encoded ''workclass'' (Object [Str ''Private'', Str ''Private''])))
           = Float32 [Fin (- (3 / 2)), Fin (1 / 2), Fin (1 / 2), Fin (1 / 2)]"
    unfolding e c by (simp add: zscore_column_Float32)
  have t: "eval_rows census_train_workclass_numeric census_eval = [False, False, True, True]"
    by (simp add: eval_rows_def census_train_workclass_numeric_def census_eval_def
        numeral_2_eq_2)
  have "(''workclass'', column_rows [False, False, True, True]
            (Float32 [Fin (- (3 / 2)), Fin (1 / 2), Fin (1 / 2), Fin (1 / 2)]))
          \<in> set (cols ex)"
    using load_data_column(2) [OF loadable_census_train_workclass_numeric loadable_census_eval
        ca cb n r]
    unfolding z t .
  then show ?thesis by (simp add: r eval_x_of_def select_rows_def)
qed

text \<open>
  Claim C3, as amended. When the label column of both frames is text, \<open>load_data\<close>
  returns one label per row, in row order: 0 for \<open><=50K\<close>, 1 for \<open>>50K\<close> and -1 for a
  missing label or any other string. The labels are taken from the encoded frames before
  \<open>standardize\<close> runs and are never scaled. The feature frames keep the row index of
  their input and have no label column, and row \<open>k\<close> of a feature column holds the
  category code, or the standardized value, of row \<open>k\<close> of the input column.
\<close>

theorem load_data_labels_aligned:
  assumes "loadable a" and "loadable b"
    and "(LABEL_COLUMN, Object la) \<in> set (cols a)"
    and "(LABEL_COLUMN, Object lb) \<in> set (cols b)"
  shows "\<exists>tx ty ex ey. load_data a b = Inr (tx, ty, ex, ey)
     \<and> ty = map (\<lambda>v. [Fin (label_value v)]) la
     \<and> ey = map (\<lambda>v. [Fin (label_value v)]) lb
     \<and> index tx = index a \<and> index ex = index b
     \<and> length ty = length (index tx) \<and> length ey = length (index ex)
     \<and> LABEL_COLUMN \<notin> set (columns_of tx) \<and> LABEL_COLUMN \<notin> set (columns_of ex)
     \<and> (\<forall>n va vb categories.
           (n, Object va) \<in> set (cols a) \<and> (n, Object vb) \<in> set (cols b)
           \<and> CATEGORICAL_TYPES n = Some categories \<and> n \<noteq> LABEL_COLUMN
           \<longrightarrow> (n, Int8 (map (\<lambda>v. cat_code categories (astype_category categories v)) va))
                 \<in> set (cols tx)
               \<and> (n, Int8 (map (\<lambda>v. cat_code categories (astype_category categories v)) vb))
                 \<in> set (cols ex))
     \<and> (\<forall>n xa xb.
           (n, Int64 xa) \<in> set (cols a) \<and> (n, Int64 xb) \<in> set (cols b)
           \<and> n \<notin> set UNUSED_COLUMNS
           \<longrightarrow> (n, Float32 (map (\<lambda>v. fdiv (fsub v (series_mean (of_ints (xa @ xb))))
                                          (series_std (sub_mean (of_ints (xa @ xb)))))
                               (of_ints xa))) \<in> set (cols tx)
               \<and> (n, Float32 (map (\<lambda>v. fdiv (fsub v (series_mean (of_ints (xa @ xb))))
                                          (series_std (sub_mean (of_ints (xa @ xb)))))
                               (of_ints xb))) \<in> set (cols ex))"
proof -
  obtain tx ty ex ey where r: "load_data a b = Inr (tx, ty, ex, ey)"
    using load_data_ok [OF assms(1,2)] by blast
  have wa: "wf_frame a" and wb: "wf_frame b" using assms(1,2) by (simp_all add: loadable_def)
  have "label_array (encoded LABEL_COLUMN (Object la)) = Inr ty"
    and "label_array (encoded LABEL_COLUMN (Object lb)) = Inr ey"
    using assms r by (rule load_data_labels)+
  then have ty: "ty = map (\<lambda>v. [Fin (label_value v)]) la"
    and ey: "ey = map (\<lambda>v. [Fin (label_value v)]) lb"
    by (simp_all add: label_array_object)
  have ix: "index tx = index a" "index ex = index b"
    and nl: "LABEL_COLUMN \<notin> set (columns_of tx)" "LABEL_COLUMN \<notin> set (columns_of ex)"
    using assms(1,2) r by (rule load_data_frames)+
  have len: "length ty = length (index tx)" "length ey = length (index ex)"
    using wf_frame_column [OF wa assms(3)] wf_frame_column [OF wb assms(4)]
    by (simp_all add: ty ey ix)
  have cat: "(n, Int8 (map (\<lambda>v. cat_code categories (astype_category categories v)) va))
                 \<in> set (cols tx)
               \<and> (n, Int8 (map (\<lambda>v. cat_code categories (astype_category categories v)) vb))
                 \<in> set (cols ex)"
    if "(n, Object va) \<in> set (cols a) \<and> (n, Object vb) \<in> set (cols b)
           \<and> CATEGORICAL_TYPES n = Some categories \<and> n \<noteq> LABEL_COLUMN"
    for n va vb categories
    using that r load_data_category_column [of a b n va vb categories tx ty ex ey] assms(1,2)
    by simp
  have num: "(n, Float32 (map (\<lambda>v. fdiv (fsub v (series_mean (of_ints (xa @ xb))))
                                          (series_std (sub_mean (of_ints (xa @ xb)))))
                               (of_ints xa))) \<in> set (cols tx)
               \<and> (n, Float32 (map (\<lambda>v. fdiv (fsub v (series_mean (of_ints (xa @ xb))))
                                          (series_std (sub_mean (of_ints (xa @ xb)))))
                               (of_ints xb))) \<in> set (cols ex)"
    if h: "(n, Int64 xa) \<in> set (cols a) \<and> (n, Int64 xb) \<in> set (cols b)
           \<and> n \<notin> set UNUSED_COLUMNS"
    for n xa xb
  proof -
    have "n \<noteq> LABEL_COLUMN"
      using wf_frame_unique [OF wa assms(3), of "Int64 xa"] h by auto
    then show ?thesis
      using h r load_data_int64_column [of a b n xa xb tx ty ex ey] assms(1,2) by simp
  qed
  show ?thesis
    using r ty ey ix len nl cat num by blast
qed

text \<open>The census frames: labels \<open>[0, 1]\<close> for training, \<open>[0, -1]\<close> for evaluation.\<close>

theorem load_data_labels_aligned_witness:
  "loadable census_train \<and> loadable census_eval
   \<and> (LABEL_COLUMN, Object [Str ''<=50K'', Str ''>50K'']) \<in> set (cols census_train)
   \<and> (LABEL_COLUMN, Object [Str ''<=50K'', ObjFloat NaN]) \<in> set (cols census_eval)
   \<and> (\<exists>tx ty ex ey. load_data census_train census_eval = Inr (tx, ty, ex, ey)
         \<and> ty = [[Fin 0], [Fin 1]] \<and> ey = [[Fin 0], [Fin (- 1)]]
         \<and> index tx = [0, 1] \<and> index ex = [0, 1])"
proof -
  have h: "(LABEL_COLUMN, Object [Str ''<=50K'', Str ''>50K'']) \<in> set (cols census_train)"
    "(LABEL_COLUMN, Object [Str ''<=50K'', ObjFloat NaN]) \<in> set (cols census_eval)"
    by (simp_all add: census_train_def census_eval_def LABEL_COLUMN_def)
  have i: "index census_train = [0, 1]" "index census_eval = [0, 1]"
    by (simp_all add: census_train_def census_eval_def)
  show ?thesis
    using load_data_labels_aligned [OF loadable_census_train loadable_census_eval h]
      h loadable_census_train loadable_census_eval
    unfolding i by simp blast
qed

lemma loadable_census_eval_unlabelled: "loadable census_eval_unlabelled"
  by (simp add: loadable_def wf_frame_def columns_of_def census_eval_unlabelled_def
      declared_def UNUSED_COLUMNS_def LABEL_COLUMN_def CATEGORICAL_TYPES_def
      CATEGORICAL_TYPES_items_def)

text \<open>
  Claim C3 as stated fails: the second evaluation row has a missing label, and its entry
  in \<open>eval_y\<close> is -1, neither 0 nor 1. When every label of the evaluation file is
  missing, the label column is numeric and \<open>eval_y\<close> is NaN in every row.
\<close>

theorem load_data_label_counterexample:
  "eval_y_of (load_data census_train census_eval) = [[Fin 0], [Fin (- 1)]]
   \<and> eval_y_of (load_data census_train census_eval_unlabelled) = [[NaN], [NaN]]"
proof -
  obtain tx ty ex ey where r: "load_data census_train census_eval = Inr (tx, ty, ex, ey)"
    using load_data_ok [OF loadable_census_train loadable_census_eval] by blast
  have h: "(LABEL_COLUMN, Object [Str ''<=50K'', Str ''>50K'']) \<in> set (cols census_train)"
    "(LABEL_COLUMN, Object [Str ''<=50K'', ObjFloat NaN]) \<in> set (cols census_eval)"
    by (simp_all add: census_train_def census_eval_def LABEL_COLUMN_def)
  have "label_array (encoded LABEL_COLUMN (Object [Str ''<=50K'', ObjFloat NaN])) = Inr ey"
    using loadable_census_train loadable_census_eval h r by (rule load_data_labels(2))
  then have "ey = [[Fin 0], [Fin (- 1)]]" by (simp add: label_array_object)
  then have one: "eval_y_of (load_data census_train census_eval) = [[Fin 0], [Fin (- 1)]]"
    by (simp add: r eval_y_of_def)
  obtain tx' ty' ex' ey'
    where r': "load_data census_train census_eval_unlabelled = Inr (tx', ty', ex', ey')"
    using load_data_ok [OF loadable_census_train loadable_census_eval_unlabelled] by blast
  have h': "(LABEL_COLUMN, Float64 [NaN, NaN]) \<in> set (cols census_eval_unlabelled)"
    by (simp add: census_eval_unlabelled_def LABEL_COLUMN_def)
  have "label_array (encoded LABEL_COLUMN (Float64 [NaN, NaN])) = Inr ey'"
    using loadable_census_train loadable_census_eval_unlabelled h(1) h' r'
    by (rule load_data_labels(2))
  then have "ey' = [[NaN], [NaN]]" by (simp add: encoded_def label_array_def)
  then have two: "eval_y_of (load_data census_train census_eval_unlabelled) = [[NaN], [NaN]]"
    by (simp add: r' eval_y_of_def)
  show ?thesis using one two by simp
qed

end
